theory Spec2Isabelle
  imports Complex_Main "HOL-Library.AList" "HOL-Library.Log_Nat"
begin

section \<open>Data model\<close>

text \<open>
  The dispatch and delivery-lifecycle engine of the delivery app: the message-bus service
  (class \<open>RabbitMqService\<close>) with its connection registry, match cache and lifecycle
  handlers, and rider discovery (\<open>DeliveryController.findRiders\<close>).

  Modelling conventions.
  \<^item> A participant identity and a document \<open>_id\<close> are strings; the empty string is the
    only falsy one.
  \<^item> A number is an IEEE 754 double, as in the source: \<open>jsnum\<close> below holds a finite
    value as the rational it denotes, the two infinities or NaN, and every arithmetic
    operation rounds its exact result to the nearest double, ties to even. The sign of
    zero is not modelled.
  \<^item> An asynchronous handler is modelled as the sequence of its effects in program
    order; a handler that throws keeps the effects made before the throw.
\<close>

type_synonym ident = string

datatype status = PENDING | ON_TRANSIT | DELIVERED | CANCELED

datatype error = NotFound string | TypeError

section \<open>Numbers\<close>

text \<open>
  A number of the source: a finite double (the rational it denotes), an infinity or NaN.
  A value \<open>Fin x\<close> is meant for \<open>x\<close> a double; the operations below return doubles.
\<close>

datatype jsnum = Fin rat | PInf | NInf | NaN

text \<open>\<open>\<lfloor>log\<^sub>2 x\<rfloor>\<close> for a positive rational.\<close>

definition ilog2 :: "rat \<Rightarrow> int" where
  "ilog2 x = (if 1 \<le> x then bitlen \<lfloor>x\<rfloor> - 1 else - bitlen (\<lceil>1 / x\<rceil> - 1))"

definition round_half_even :: "rat \<Rightarrow> int" where
  "round_half_even y =
     (let n = \<lfloor>y\<rfloor>; d = y - of_int n
      in if d < 1 / 2 then n else if 1 / 2 < d then n + 1 else if even n then n else n + 1)"

text \<open>The exponent of the last place of the doubles around \<open>a\<close>: 53 significant bits,
  and \<open>2\<^sup>-\<^sup>1\<^sup>0\<^sup>7\<^sup>4\<close> for the subnormal numbers.\<close>

definition expo :: "rat \<Rightarrow> int" where
  "expo a = max (ilog2 a) (- 1022) - 52"

text \<open>Rounding of an exact result to the nearest double, ties to even; a result that
  rounds to \<open>2\<^sup>1\<^sup>0\<^sup>2\<^sup>4\<close> or more overflows to an infinity.\<close>

definition fl :: "rat \<Rightarrow> jsnum" where
  "fl x =
     (let a = \<bar>x\<bar>; e = expo a; v = of_int (round_half_even (a / 2 powi e)) * 2 powi e
      in if 1024 \<le> ilog2 v then (if 0 < x then PInf else NInf)
         else Fin (if 0 < x then v else - v))"

text \<open>A rational is a double when rounding leaves it as it is.\<close>

definition is_double :: "rat \<Rightarrow> bool" where
  "is_double x \<longleftrightarrow> fl x = Fin x"

fun js_neg :: "jsnum \<Rightarrow> jsnum" where
  "js_neg (Fin a) = Fin (- a)"
| "js_neg PInf = NInf"
| "js_neg NInf = PInf"
| "js_neg NaN = NaN"

fun js_add :: "jsnum \<Rightarrow> jsnum \<Rightarrow> jsnum" where
  "js_add (Fin a) (Fin b) = fl (a + b)"
| "js_add NaN y = NaN"
| "js_add x NaN = NaN"
| "js_add PInf NInf = NaN"
| "js_add NInf PInf = NaN"
| "js_add PInf y = PInf"
| "js_add x PInf = PInf"
| "js_add NInf y = NInf"
| "js_add x NInf = NInf"

definition js_sub :: "jsnum \<Rightarrow> jsnum \<Rightarrow> jsnum" where
  "js_sub x y = js_add x (js_neg y)"

text \<open>The sign of a number that is not NaN: \<open>-1\<close>, \<open>0\<close> or \<open>1\<close>.\<close>

fun js_sign :: "jsnum \<Rightarrow> int" where
  "js_sign (Fin a) = (if a = 0 then 0 else if 0 < a then 1 else - 1)"
| "js_sign PInf = 1"
| "js_sign NInf = - 1"
| "js_sign NaN = 0"

definition signed_inf :: "int \<Rightarrow> jsnum" where
  "signed_inf s = (if s = 0 then NaN else if 0 < s then PInf else NInf)"

fun js_mul :: "jsnum \<Rightarrow> jsnum \<Rightarrow> jsnum" where
  "js_mul (Fin a) (Fin b) = fl (a * b)"
| "js_mul NaN y = NaN"
| "js_mul x NaN = NaN"
| "js_mul x y = signed_inf (js_sign x * js_sign y)"

text \<open>A zero divisor counts as \<open>+0\<close>, which is what \<open>let speedInKmPerHour = 0\<close> gives.\<close>

fun js_div :: "jsnum \<Rightarrow> jsnum \<Rightarrow> jsnum" where
  "js_div (Fin a) (Fin b) = (if b = 0 then signed_inf (js_sign (Fin a)) else fl (a / b))"
| "js_div NaN y = NaN"
| "js_div x NaN = NaN"
| "js_div (Fin a) y = Fin 0"
| "js_div x (Fin b) = signed_inf (js_sign x * (if b < 0 then - 1 else 1))"
| "js_div x y = NaN"

text \<open>\<open>Math.floor\<close> and \<open>Math.round\<close> (half-way values go up); both are exact, the
  result being a double whenever the argument is.\<close>

fun js_floor :: "jsnum \<Rightarrow> jsnum" where
  "js_floor (Fin a) = Fin (of_int \<lfloor>a\<rfloor>)"
| "js_floor x = x"

fun js_round :: "jsnum \<Rightarrow> jsnum" where
  "js_round (Fin a) = Fin (of_int \<lfloor>a + 1 / 2\<rfloor>)"
| "js_round x = x"

text \<open>\<open>x <= y\<close>: false whenever an operand is NaN.\<close>

fun js_le :: "jsnum \<Rightarrow> jsnum \<Rightarrow> bool" where
  "js_le (Fin a) (Fin b) = (a \<le> b)"
| "js_le NaN y = False"
| "js_le x NaN = False"
| "js_le NInf y = True"
| "js_le x PInf = True"
| "js_le x y = False"

text \<open>A number that counts as false in a condition or on the left of \<open>&&\<close>.\<close>

definition js_falsy :: "jsnum \<Rightarrow> bool" where
  "js_falsy x \<longleftrightarrow> x = Fin 0 \<or> x = NaN"

section \<open>Documents and state\<close>

text \<open>A socket.io connection; \<open>sock_id\<close> is its connection identity (\<open>socket.id\<close>).\<close>

record socket =
  sock_id :: string

text \<open>One \<open>socket.emit(event, ...)\<close>: the connection identity and the event name.\<close>

type_synonym emission = "string \<times> string"

text \<open>The match record kept in the cache under the key \<open>PACKAGE_REQUEST_INFO\<close>.\<close>

record match_record =
  deliveryId :: ident
  riderId :: ident
  customerId :: ident
  deliveryRefNumber :: string
  estimatedDeliveryTime :: string

record delivery =
  d_id :: ident
  d_status :: status
  d_deliveryFee :: jsnum
  d_rider :: "ident option"
  d_customer :: ident
  d_senderLocation :: "rat \<times> rat"

text \<open>The fields of \<open>IRider\<close> that the engine reads or writes; \<open>active\<close> is
  \<open>boolean | null\<close>.\<close>

record rider =
  r_id :: ident
  r_status :: string
  r_active :: "bool option"
  r_busy :: bool

text \<open>A balance is a number or \<open>null\<close> (\<open>None\<close>).\<close>

record riderWallet =
  w_id :: ident
  w_rider :: ident
  w_balance :: "jsnum option"

record adminFee =
  af_deliveryRefNumber :: string
  af_rider :: ident
  af_adminFee :: "jsnum option"

record notification =
  n_deliveryRefNumber :: string
  n_riderAvailabilityStatus :: bool
  n_rider :: ident
  n_customer :: ident
  n_delivery :: ident

text \<open>
  The state the service works on: its own \<open>socketMap\<close> (a JavaScript \<open>Map\<close>, kept in
  insertion order), the cache entry under \<open>PACKAGE_REQUEST_INFO\<close>, the collections of
  the persistence layer, and the log of the events emitted on connections.

  Modelled from the spec: the cache service (\<open>RedisService\<close>) is missing from the sources.
  \<open>getToken(key)\<close> returns the record stored under the key or \<open>null\<close>, and
  \<open>deleteRedisKey(key)\<close> removes it; the handlers use the one key
  \<open>PACKAGE_REQUEST_INFO\<close>, so the cache is the field \<open>redis\<close>, \<open>None\<close> when the key is
  absent.
\<close>

record state =
  socketMap :: "(ident \<times> socket) list"
  redis :: "match_record option"
  deliveries :: "delivery list"
  riders :: "rider list"
  riderWallets :: "riderWallet list"
  adminFees :: "adminFee list"
  notifications :: "notification list"
  emitted :: "emission list"

section \<open>Persistence collaborator\<close>

text \<open>
  The entity services of \<open>services/dao\<close> are not among the source files; the handlers
  below call them, so each operation they use is modelled from the external interface the
  specification gives (\<open>findByAny(filter)\<close>, \<open>create(value)\<close>, \<open>update(filter, patch)\<close>,
  \<open>updateByAny(filter, patch)\<close>). A collection is a list of documents, a filter a
  predicate on documents, a patch a function on documents.
\<close>

text \<open>Modelled from the spec: \<open>findByAny(filter)\<close> of an entity service, which is missing
  from the sources; it returns the first document that satisfies the filter, or \<open>null\<close>.\<close>

definition findByAny :: "('a \<Rightarrow> bool) \<Rightarrow> 'a list \<Rightarrow> 'a option" where
  "findByAny flt xs = find flt xs"

text \<open>The collection after the first document that satisfies the filter is patched.\<close>

fun updateFirst :: "('a \<Rightarrow> bool) \<Rightarrow> ('a \<Rightarrow> 'a) \<Rightarrow> 'a list \<Rightarrow> 'a list" where
  "updateFirst flt patch [] = []"
| "updateFirst flt patch (x # xs) =
     (if flt x then patch x # xs else x # updateFirst flt patch xs)"

text \<open>Modelled from the spec: \<open>updateByAny(filter, patch)\<close> of an entity service, which is
  missing from the sources; it patches the first document that satisfies the filter and
  returns it, or returns \<open>null\<close> and changes nothing when there is none.\<close>

definition updateByAny :: "('a \<Rightarrow> bool) \<Rightarrow> ('a \<Rightarrow> 'a) \<Rightarrow> 'a list \<Rightarrow> 'a option \<times> 'a list" where
  "updateByAny flt patch xs = (map_option patch (find flt xs), updateFirst flt patch xs)"

text \<open>Modelled from the spec: \<open>update(filter, patch)\<close> of an entity service, which is
  missing from the sources; as \<open>updateByAny\<close>.\<close>

definition dao_update :: "('a \<Rightarrow> bool) \<Rightarrow> ('a \<Rightarrow> 'a) \<Rightarrow> 'a list \<Rightarrow> 'a option \<times> 'a list" where
  "dao_update flt patch xs = updateByAny flt patch xs"

text \<open>Modelled from the spec: \<open>create(value)\<close> of an entity service, which is missing from
  the sources; it appends the document.\<close>

definition create :: "'a \<Rightarrow> 'a list \<Rightarrow> 'a list" where
  "create v xs = xs @ [v]"

section \<open>Connection registry\<close>

text \<open>\<open>socket.on('riderId', ...)\<close> and \<open>socket.on('customerId', ...)\<close>: a truthy identity
  is mapped to the connection, replacing an earlier mapping.\<close>

definition on_riderId :: "state \<Rightarrow> socket \<Rightarrow> ident \<Rightarrow> state" where
  "on_riderId st sock rid =
     (if rid \<noteq> [] then st\<lparr>socketMap := AList.update rid sock (socketMap st)\<rparr> else st)"

definition on_customerId :: "state \<Rightarrow> socket \<Rightarrow> ident \<Rightarrow> state" where
  "on_customerId st sock cid =
     (if cid \<noteq> [] then st\<lparr>socketMap := AList.update cid sock (socketMap st)\<rparr> else st)"

text \<open>\<open>this.socketMap.get(key)\<close>.\<close>

definition socketMap_get :: "state \<Rightarrow> ident \<Rightarrow> socket option" where
  "socketMap_get st k = map_of (socketMap st) k"

text \<open>
  The values that \<open>findRiderIdBySocketId\<close> compares with \<open>===\<close>: the values of the map are
  connection objects, the argument is a string. Strict equality of an object and a string
  is false; two objects are equal when they are the same object.
\<close>

datatype jsval = JSString string | JSSocket socket

fun strict_eq :: "jsval \<Rightarrow> jsval \<Rightarrow> bool" where
  "strict_eq (JSString a) (JSString b) = (a = b)"
| "strict_eq (JSSocket a) (JSSocket b) = (a = b)"
| "strict_eq _ _ = False"

text \<open>The loop over \<open>this.socketMap.entries()\<close>; \<open>undefined\<close> is \<open>None\<close>.\<close>

fun findRiderIdBySocketId :: "(ident \<times> socket) list \<Rightarrow> string \<Rightarrow> ident option" where
  "findRiderIdBySocketId [] socketId = None"
| "findRiderIdBySocketId ((rid, sock) # rest) socketId =
     (if strict_eq (JSSocket sock) (JSString socketId) then Some rid
      else findRiderIdBySocketId rest socketId)"

text \<open>The end of the \<open>connection\<close> handler: a connection whose identity is found by the
  reverse lookup is mapped to the identity found.\<close>

definition on_connection :: "state \<Rightarrow> socket \<Rightarrow> state" where
  "on_connection st sock =
     (case findRiderIdBySocketId (socketMap st) (sock_id sock) of
        None \<Rightarrow> st
      | Some rid \<Rightarrow>
          if rid \<noteq> [] then st\<lparr>socketMap := AList.update rid sock (socketMap st)\<rparr> else st)"

section \<open>Delivery lifecycle controller\<close>

definition emit :: "socket \<Rightarrow> string \<Rightarrow> state \<Rightarrow> state" where
  "emit sock event st = st\<lparr>emitted := emitted st @ [(sock_id sock, event)]\<rparr>"

text \<open>
  \<open>startDeliveryNotification(data)\<close>; \<open>cid\<close> is \<open>data.customerId\<close>. Destructuring the cache
  entry throws when the entry is \<open>null\<close>, before any effect.
\<close>

definition startDeliveryNotification :: "state \<Rightarrow> ident \<Rightarrow> error option \<times> state" where
  "startDeliveryNotification st cid =
     (case socketMap_get st cid of
        None \<Rightarrow> (None, st)
      | Some customerSocket \<Rightarrow>
          (case redis st of
             None \<Rightarrow> (Some TypeError, st)
           | Some redisData \<Rightarrow>
               let st1 = emit customerSocket ''startDeliveryNotification'' st;
                   st2 = st1\<lparr>deliveries :=
                           snd (updateByAny (\<lambda>d. d_id d = deliveryId redisData)
                                  (\<lambda>d. d\<lparr>d_status := ON_TRANSIT\<rparr>) (deliveries st1))\<rparr>;
                   st3 = st2\<lparr>riders :=
                           snd (updateByAny (\<lambda>r. r_id r = riderId redisData)
                                  (\<lambda>r. r\<lparr>r_busy := True\<rparr>) (riders st2))\<rparr>
               in (None, st3)))"

text \<open>
  The settlement of \<open>endDeliveryNotification\<close>. \<open>delivery && e\<close> is \<open>null\<close> when the update
  found no delivery; \<open>ADMIN_CHARGES\<close> is a constant of \<open>config/constants\<close>, taken as a
  parameter.
\<close>

definition adminFee_of :: "rat \<Rightarrow> delivery option \<Rightarrow> jsnum option" where
  "adminFee_of ADMIN_CHARGES dlv =
     (case dlv of
        None \<Rightarrow> None
      | Some d \<Rightarrow> Some (js_mul (js_div (Fin ADMIN_CHARGES) (Fin 100)) (d_deliveryFee d)))"

definition riderFee_of :: "rat \<Rightarrow> delivery option \<Rightarrow> jsnum option" where
  "riderFee_of ADMIN_CHARGES dlv =
     (case dlv of
        None \<Rightarrow> None
      | Some d \<Rightarrow>
          Some (js_sub (d_deliveryFee d)
                  (js_round (case adminFee_of ADMIN_CHARGES dlv of
                               None \<Rightarrow> Fin 0 | Some a \<Rightarrow> a))))"

text \<open>
  \<open>riderFee && riderFee + riderWallet.balance\<close>: a \<open>riderFee\<close> that is \<open>null\<close>, zero or NaN
  is falsy and is the value of the expression; a \<open>null\<close> balance counts as zero in the
  sum.
\<close>

definition new_balance :: "jsnum option \<Rightarrow> jsnum option \<Rightarrow> jsnum option" where
  "new_balance riderFee balance =
     (case riderFee of
        None \<Rightarrow> None
      | Some f \<Rightarrow>
          if js_falsy f then Some f
          else Some (js_add f (case balance of None \<Rightarrow> Fin 0 | Some b \<Rightarrow> b)))"

text \<open>
  \<open>endDeliveryNotification(data)\<close>; \<open>cid\<close> is \<open>data.customerId\<close>, \<open>newId\<close> the \<open>_id\<close> that
  the persistence layer gives a wallet it creates.
\<close>

definition endDeliveryNotification ::
  "rat \<Rightarrow> ident \<Rightarrow> state \<Rightarrow> ident \<Rightarrow> error option \<times> state" where
  "endDeliveryNotification ADMIN_CHARGES newId st cid =
     (case socketMap_get st cid of
        None \<Rightarrow> (None, st)
      | Some customerSocket \<Rightarrow>
          (case redis st of
             None \<Rightarrow> (Some TypeError, st)
           | Some redisData \<Rightarrow>
               let st1 = emit customerSocket ''endDeliveryNotification'' st;
                   upd = updateByAny (\<lambda>d. d_id d = deliveryId redisData)
                           (\<lambda>d. d\<lparr>d_status := DELIVERED\<rparr>) (deliveries st1);
                   dlv = fst upd;
                   st2 = st1\<lparr>deliveries := snd upd\<rparr>;
                   st3 = st2\<lparr>riders :=
                           snd (updateByAny (\<lambda>r. r_id r = riderId redisData)
                                  (\<lambda>r. r\<lparr>r_busy := False\<rparr>) (riders st2))\<rparr>;
                   wallet = findByAny (\<lambda>w. w_rider w = riderId redisData) (riderWallets st3);
                   fee = adminFee_of ADMIN_CHARGES dlv;
                   riderFee = riderFee_of ADMIN_CHARGES dlv;
                   st4 = (case wallet of
                            Some w \<Rightarrow>
                              st3\<lparr>riderWallets :=
                                snd (dao_update (\<lambda>x. w_id x = riderId redisData)
                                       (\<lambda>x. x\<lparr>w_balance := new_balance riderFee (w_balance w)\<rparr>)
                                       (riderWallets st3))\<rparr>
                          | None \<Rightarrow>
                              st3\<lparr>riderWallets :=
                                create \<lparr>w_id = newId, w_rider = riderId redisData,
                                        w_balance = riderFee\<rparr> (riderWallets st3)\<rparr>);
                   st5 = st4\<lparr>adminFees :=
                           create \<lparr>af_deliveryRefNumber = deliveryRefNumber redisData,
                                   af_rider = riderId redisData, af_adminFee = fee\<rparr>
                             (adminFees st4)\<rparr>
               in (None, st5\<lparr>redis := None\<rparr>)))"

section \<open>Response relay\<close>

text \<open>
  \<open>riderAvailability(availabilityStatus)\<close>. Its callers do not await it: it reads the
  cache entry when it is called, before the cache commands its caller issues afterwards,
  and creates the notification record. When the entry is \<open>null\<close> the destructuring throws
  inside the promise nobody awaits, and nothing is created.
\<close>

definition riderAvailability :: "bool \<Rightarrow> state \<Rightarrow> state" where
  "riderAvailability availabilityStatus st =
     (case redis st of
        None \<Rightarrow> st
      | Some redisData \<Rightarrow>
          st\<lparr>notifications :=
               create \<lparr>n_deliveryRefNumber = deliveryRefNumber redisData,
                       n_riderAvailabilityStatus = availabilityStatus,
                       n_rider = riderId redisData,
                       n_customer = customerId redisData,
                       n_delivery = deliveryId redisData\<rparr> (notifications st)\<rparr>)"

text \<open>The payload of a \<open>driver_responses\<close> message.\<close>

record driverResponse =
  dr_riderId :: ident
  dr_customerId :: ident
  dr_availability :: bool

definition notifyUserAboutDriverResponse :: "state \<Rightarrow> driverResponse \<Rightarrow> error option \<times> state" where
  "notifyUserAboutDriverResponse st resp =
     (case socketMap_get st (dr_customerId resp) of
        None \<Rightarrow> (None, st)
      | Some customerSocket \<Rightarrow>
          if dr_availability resp then
            (let st1 = emit customerSocket ''riderResponse'' st;
                 st2 = riderAvailability (dr_availability resp) st1
             in case redis st2 of
                  None \<Rightarrow> (Some TypeError, st2)
                | Some redisData \<Rightarrow>
                    (None, st2\<lparr>deliveries :=
                             snd (updateByAny (\<lambda>d. d_id d = deliveryId redisData)
                                    (\<lambda>d. d\<lparr>d_rider := Some (riderId redisData)\<rparr>)
                                    (deliveries st2))\<rparr>))
          else
            (let st1 = riderAvailability (dr_availability resp) st;
                 st2 = emit customerSocket ''riderDeclined'' st1
             in (None, st2\<lparr>redis := None\<rparr>)))"

section \<open>Rider discovery\<close>

text \<open>A result document of the \<open>$geoNear\<close> aggregate: the rider it locates and the
  computed \<open>distance\<close> field, in metres.\<close>

record riderLoc =
  rl_rider :: ident
  rl_distance :: rat

record vehicle =
  v_rider :: ident
  v_vehicleType :: string

text \<open>The speed constants of \<open>config/constants\<close>, which is not among the sources: they are
  parameters.\<close>

record speeds =
  BIKE_SPEED :: rat
  CAR_SPEED :: rat
  BUS_SPEED :: rat
  AVERAGE_SPEED :: rat

text \<open>
  What \<open>findRiders\<close> asks of its collaborators, as the results they return:
  \<open>deliveryDAOService.findAll({customer})\<close> (\<open>null\<close> or an array), the sorted \<open>$geoNear\<close>
  aggregate for the sender's coordinates, \<open>riderDAOService.findById\<close> and
  \<open>vehicleDAOService.findByAny({rider})\<close>.
\<close>

record collaborators =
  delivery_findAll :: "ident \<Rightarrow> delivery list option"
  riderLocation_aggregate :: "rat \<times> rat \<Rightarrow> riderLoc list"
  rider_findById :: "ident \<Rightarrow> rider option"
  vehicle_findByAny :: "ident \<Rightarrow> vehicle option"

text \<open>The loop over \<open>riders\<close> that picks \<open>rider\<close>: \<open>_rider?.status === 'online' &&
  _rider?.active\<close>, with \<open>break\<close> at the first hit.\<close>

definition eligible :: "rider option \<Rightarrow> bool" where
  "eligible r = (case r of None \<Rightarrow> False
                 | Some x \<Rightarrow> r_status x = ''online'' \<and> r_active x = Some True)"

fun pickRider :: "(ident \<Rightarrow> rider option) \<Rightarrow> riderLoc list \<Rightarrow> rider option" where
  "pickRider findById [] = None"
| "pickRider findById (riderLoc # rest) =
     (if eligible (findById (rl_rider riderLoc)) then findById (rl_rider riderLoc)
      else pickRider findById rest)"

text \<open>\<open>speedInKmPerHour\<close>: it stays \<open>0\<close> when the rider has no vehicle.\<close>

definition speedInKmPerHour :: "speeds \<Rightarrow> vehicle option \<Rightarrow> jsnum" where
  "speedInKmPerHour C v =
     (case v of
        None \<Rightarrow> Fin 0
      | Some vehicle \<Rightarrow>
          if v_vehicleType vehicle = ''bike'' then js_add (Fin 0) (Fin (BIKE_SPEED C))
          else if v_vehicleType vehicle = ''car'' then js_add (Fin 0) (Fin (CAR_SPEED C))
          else if v_vehicleType vehicle = ''bus'' then js_add (Fin 0) (Fin (BUS_SPEED C))
          else js_add (Fin 0) (Fin (AVERAGE_SPEED C)))"

text \<open>The \<open>forEach\<close> that sums \<open>distanceKm / speedInKmPerHour\<close> over all returned riders.\<close>

fun estimatedTimeToSender :: "jsnum \<Rightarrow> jsnum \<Rightarrow> riderLoc list \<Rightarrow> jsnum" where
  "estimatedTimeToSender speed acc [] = acc"
| "estimatedTimeToSender speed acc (elem # rest) =
     estimatedTimeToSender speed
       (js_add acc (js_div (js_div (Fin (rl_distance elem)) (Fin 1000)) speed)) rest"

text \<open>\<open>hours\<close> and \<open>minutes\<close> of the estimate, and the \<open>arrivalTime\<close> derived from
  \<open>minutes\<close>.\<close>

definition minutes_of :: "jsnum \<Rightarrow> jsnum" where
  "minutes_of est =
     (let hours = js_floor est in js_round (js_mul (js_sub est hours) (Fin 60)))"

definition arrivalTime_of :: "jsnum \<Rightarrow> jsnum" where
  "arrivalTime_of minutes =
     (if js_le minutes (Fin 2) then js_add (Fin 0) (Fin 2) else js_add (Fin 0) minutes)"

text \<open>The response of \<open>findRiders\<close>: the \<open>arrivalTime\<close> of its message and the chosen
  rider.\<close>

record response =
  arrivalTime :: jsnum
  result_rider :: rider

text \<open>
  \<open>findRiders(req)\<close>; \<open>cust\<close> is \<open>req.user._id\<close>. Reading \<open>senderLocation\<close> of the last
  element of an empty array throws a \<open>TypeError\<close>.
\<close>

definition findRiders :: "speeds \<Rightarrow> collaborators \<Rightarrow> ident \<Rightarrow> error + response" where
  "findRiders C dao cust =
     (case delivery_findAll dao cust of
        None \<Rightarrow> Inl (NotFound ''Delivery does not exist'')
      | Some dlv \<Rightarrow>
          if dlv = [] then Inl TypeError
          else
            let lastDelivery = last dlv;
                rs = riderLocation_aggregate dao (d_senderLocation lastDelivery)
            in if length rs = 0 then Inl (NotFound ''No riders available at the moment'')
               else
                 (case pickRider (rider_findById dao) rs of
                    None \<Rightarrow> Inl (NotFound ''No rider is currently online'')
                  | Some r \<Rightarrow>
                      let speed = speedInKmPerHour C (vehicle_findByAny dao (r_id r));
                          est = estimatedTimeToSender speed (Fin 0) rs
                      in Inr \<lparr>arrivalTime = arrivalTime_of (minutes_of est),
                              result_rider = r\<rparr>))"

section \<open>Example states\<close>

text \<open>A customer \<open>c1\<close> connected on \<open>s1\<close>, with a pending delivery \<open>d1\<close> of fee 100 that is
  matched to the rider \<open>r1\<close>; the rider has no wallet.\<close>

definition cache0 :: match_record where
  "cache0 = \<lparr>deliveryId = ''d1'', riderId = ''r1'', customerId = ''c1'',
             deliveryRefNumber = ''REF1'', estimatedDeliveryTime = ''0hrs:10min''\<rparr>"

definition st0 :: state where
  "st0 = \<lparr>socketMap = [(''c1'', \<lparr>sock_id = ''s1''\<rparr>)],
          redis = Some cache0,
          deliveries = [\<lparr>d_id = ''d1'', d_status = PENDING, d_deliveryFee = Fin 100,
                         d_rider = None, d_customer = ''c1'', d_senderLocation = (0, 0)\<rparr>],
          riders = [\<lparr>r_id = ''r1'', r_status = ''online'', r_active = Some True,
                     r_busy = False\<rparr>],
          riderWallets = [], adminFees = [], notifications = [], emitted = []\<rparr>"

text \<open>The same, the rider owning a wallet \<open>w1\<close> with balance 50.\<close>

definition st_wallet :: state where
  "st_wallet =
     st0\<lparr>riderWallets := [\<lparr>w_id = ''w1'', w_rider = ''r1'', w_balance = Some (Fin 50)\<rparr>]\<rparr>"

text \<open>The same as \<open>st0\<close>, the fee of the delivery being 90.\<close>

definition st_fee90 :: state where
  "st_fee90 =
     st0\<lparr>deliveries := [\<lparr>d_id = ''d1'', d_status = PENDING, d_deliveryFee = Fin 90,
                            d_rider = None, d_customer = ''c1'', d_senderLocation = (0, 0)\<rparr>]\<rparr>"

text \<open>The same as \<open>st0\<close>, the customer having no connection.\<close>

definition st_offline :: state where
  "st_offline = st0\<lparr>socketMap := []\<rparr>"

text \<open>
  Rider discovery for the customer \<open>c1\<close>, whose last delivery is \<open>d1\<close>: the radius query
  returns three riders in ascending distance, the nearest one offline, the chosen one
  riding a bike. The speed constants are sample values. Any other customer has no
  delivery, for which \<open>findAll\<close> returns the empty array.
\<close>

definition speeds0 :: speeds where
  "speeds0 = \<lparr>BIKE_SPEED = 30, CAR_SPEED = 50, BUS_SPEED = 40, AVERAGE_SPEED = 35\<rparr>"

definition riderA :: rider where
  "riderA = \<lparr>r_id = ''rA'', r_status = ''offline'', r_active = Some True, r_busy = False\<rparr>"

definition riderB :: rider where
  "riderB = \<lparr>r_id = ''rB'', r_status = ''online'', r_active = Some True, r_busy = False\<rparr>"

definition riderC :: rider where
  "riderC = \<lparr>r_id = ''rC'', r_status = ''online'', r_active = Some True, r_busy = False\<rparr>"

definition delivery0 :: delivery where
  "delivery0 = \<lparr>d_id = ''d1'', d_status = PENDING, d_deliveryFee = Fin 100,
                 d_rider = None, d_customer = ''c1'', d_senderLocation = (0, 0)\<rparr>"

definition riders0 :: "riderLoc list" where
  "riders0 = [\<lparr>rl_rider = ''rA'', rl_distance = 1000\<rparr>,
              \<lparr>rl_rider = ''rB'', rl_distance = 2000\<rparr>,
              \<lparr>rl_rider = ''rC'', rl_distance = 5000\<rparr>]"

definition dao0 :: collaborators where
  "dao0 = \<lparr>delivery_findAll = (\<lambda>c. if c = ''c1'' then Some [delivery0] else Some []),
           riderLocation_aggregate = (\<lambda>p. riders0),
           rider_findById =
             (\<lambda>i. if i = ''rA'' then Some riderA else if i = ''rB'' then Some riderB
                   else if i = ''rC'' then Some riderC else None),
           vehicle_findByAny =
             (\<lambda>i. if i = ''rB'' then Some \<lparr>v_rider = ''rB'', v_vehicleType = ''bike''\<rparr>
                   else None)\<rparr>"

text \<open>The same, no rider having a vehicle record.\<close>

definition dao_novehicle :: collaborators where
  "dao_novehicle = dao0\<lparr>vehicle_findByAny := (\<lambda>i. None)\<rparr>"

text \<open>The same as \<open>dao0\<close>, the only rider in range being \<open>rB\<close> at 45 km: one hour and a
  half at the bike's 30 km/h.\<close>

definition dao_far :: collaborators where
  "dao_far =
     dao0\<lparr>riderLocation_aggregate := (\<lambda>p. [\<lparr>rl_rider = ''rB'', rl_distance = 45000\<rparr>])\<rparr>"

section \<open>The lifecycle chain of the specification\<close>

text \<open>
  The chain as the specification words it: \<open>pending \<rightarrow> assigned \<rightarrow> on_transit \<rightarrow>
  delivered\<close>, a transition never skipping a stage. The code has no status \<open>assigned\<close>: a
  delivery is assigned when it is pending and its \<open>rider\<close> field is set. A decline leaves
  the stage as it is.
\<close>

datatype stage = Pending | Assigned | On_transit | Delivered | Canceled

definition stage_of :: "delivery \<Rightarrow> stage" where
  "stage_of d =
     (case d_status d of
        PENDING \<Rightarrow> (if d_rider d = None then Pending else Assigned)
      | ON_TRANSIT \<Rightarrow> On_transit
      | DELIVERED \<Rightarrow> Delivered
      | CANCELED \<Rightarrow> Canceled)"

fun spec_transition :: "stage \<Rightarrow> stage \<Rightarrow> bool" where
  "spec_transition Pending Assigned = True"
| "spec_transition Assigned On_transit = True"
| "spec_transition On_transit Delivered = True"
| "spec_transition a b = (a = b)"

section \<open>Properties of the rounding to doubles\<close>

lemma p2_pos: "0 < (2::rat) powi e" by simp

lemma p2_add: "(2::rat) powi (a + b) = 2 powi a * 2 powi b"
  by (simp add: power_int_add)

lemma p2_nat: "0 \<le> e \<Longrightarrow> (2::rat) powi e = of_int (2 ^ nat e)"
  by (simp add: power_int_nonneg_exp)

lemma p2_less: "a < b \<Longrightarrow> (2::rat) powi a < 2 powi b"
  by (rule power_int_strict_increasing) simp_all

lemma p2_le: "a \<le> b \<Longrightarrow> (2::rat) powi a \<le> 2 powi b"
  by (rule power_int_increasing) simp_all

lemma p2_less_cancel: "(2::rat) powi a < 2 powi b \<Longrightarrow> a < b"
  using p2_le [of b a] by (cases "a < b") auto

lemma ilog2_zero: "ilog2 0 = 0"
  by (simp add: ilog2_def bitlen_eq_zero_iff)

lemma ilog2_bounds:
  assumes "0 < x"
  shows "2 powi (ilog2 x) \<le> x \<and> x < 2 powi (ilog2 x + 1)"
proof (cases "1 \<le> x")
  case True
  define n where "n = \<lfloor>x\<rfloor>"
  have n: "0 < n" using True by (simp add: n_def)
  define b where "b = bitlen n"
  have b1: "1 \<le> b" using n by (simp add: b_def bitlen_alt_def)
  from bitlen_bounds [OF n] have lo: "2 ^ nat (b - 1) \<le> n" and hi: "n < 2 ^ nat b"
    by (simp_all add: b_def)
  have il: "ilog2 x = b - 1" using True by (simp add: ilog2_def n_def b_def)
  have "(2::rat) powi (b - 1) = of_int (2 ^ nat (b - 1))" using b1 by (simp add: p2_nat)
  also have "\<dots> \<le> of_int n" using lo by (simp only: of_int_le_iff)
  also have "\<dots> \<le> x" by (simp add: n_def)
  finally have 1: "2 powi (b - 1) \<le> x" .
  have "x < of_int (n + 1)" using floor_correct [of x] by (simp add: n_def)
  also have "\<dots> \<le> of_int (2 ^ nat b)"
  proof -
    have "n + 1 \<le> 2 ^ nat b" using hi by simp
    then show ?thesis by (simp only: of_int_le_iff)
  qed
  also have "\<dots> = (2::rat) powi b" using b1 by (simp add: p2_nat)
  finally have 2: "x < 2 powi b" .
  from 1 2 il show ?thesis by simp
next
  case False
  define y where "y = 1 / x"
  have y1: "1 < y" using False assms by (simp add: y_def)
  define n where "n = \<lceil>y\<rceil> - 1"
  have n: "0 < n" using y1 by (simp add: n_def less_ceiling_iff)
  have ny: "of_int n < y" by (simp add: n_def) linarith
  have yn: "y \<le> of_int (n + 1)" by (simp add: n_def)
  define b where "b = bitlen n"
  have b1: "1 \<le> b" using n by (simp add: b_def bitlen_alt_def)
  from bitlen_bounds [OF n] have lo: "2 ^ nat (b - 1) \<le> n" and hi: "n < 2 ^ nat b"
    by (simp_all add: b_def)
  have il: "ilog2 x = - b" using False by (simp add: ilog2_def n_def b_def y_def)
  have "y \<le> of_int (2 ^ nat b)"
  proof -
    have "n + 1 \<le> 2 ^ nat b" using hi by simp
    then have "(of_int (n + 1) :: rat) \<le> of_int (2 ^ nat b)" by (simp only: of_int_le_iff)
    with yn show ?thesis by linarith
  qed
  also have "\<dots> = (2::rat) powi b" using b1 by (simp add: p2_nat)
  finally have yb: "y \<le> 2 powi b" .
  have "(2::rat) powi (b - 1) = of_int (2 ^ nat (b - 1))" using b1 by (simp add: p2_nat)
  also have "\<dots> \<le> of_int n" using lo by (simp only: of_int_le_iff)
  also have "\<dots> < y" by (rule ny)
  finally have by1: "2 powi (b - 1) < y" .
  have x: "x = 1 / y" using assms by (simp add: y_def)
  have 1: "2 powi (- b) \<le> x"
  proof -
    have "1 / (2::rat) powi b \<le> 1 / y" using yb y1 by (simp add: frac_le)
    then show ?thesis by (simp add: x power_int_minus_divide)
  qed
  have 2: "x < 2 powi (- b + 1)"
  proof -
    have "1 / y < 1 / (2::rat) powi (b - 1)" using by1 by (simp add: frac_less2)
    moreover have "1 / (2::rat) powi (b - 1) = 2 powi (- b + 1)"
      using power_int_minus_divide [of "2::rat" "b - 1"] by simp
    ultimately show ?thesis by (simp add: x)
  qed
  from 1 2 il show ?thesis by simp
qed

lemma ilog2_less: "0 < x \<Longrightarrow> x < 2 powi n \<Longrightarrow> ilog2 x < n"
  using ilog2_bounds [of x] p2_less_cancel [of "ilog2 x" n] by linarith

lemma ilog2_ge: "0 < x \<Longrightarrow> 2 powi n \<le> x \<Longrightarrow> n \<le> ilog2 x"
  using ilog2_bounds [of x] p2_less_cancel [of n "ilog2 x + 1"] by linarith

lemma ilog2_mono: "0 < x \<Longrightarrow> x \<le> y \<Longrightarrow> ilog2 x \<le> ilog2 y"
  using ilog2_bounds [of x] ilog2_ge [of y "ilog2 x"] by linarith

lemma round_half_even_int: "round_half_even (of_int k) = k"
  by (simp add: round_half_even_def)

lemma round_half_even_le: "y \<le> of_int k \<Longrightarrow> round_half_even y \<le> k"
proof -
  assume y: "y \<le> of_int k"
  show ?thesis
  proof (cases "y = of_int k")
    case True
    then show ?thesis by (simp add: round_half_even_int)
  next
    case False
    with y have "y < of_int k" by simp
    then have "\<lfloor>y\<rfloor> < k" by (simp add: floor_less_iff)
    then have "\<lfloor>y\<rfloor> + 1 \<le> k" by simp
    then show ?thesis by (auto simp: round_half_even_def Let_def)
  qed
qed

lemma round_half_even_nonneg: "0 \<le> y \<Longrightarrow> 0 \<le> round_half_even y"
  by (auto simp: round_half_even_def Let_def)


lemma fl_zero: "fl 0 = Fin 0"
  by (simp add: fl_def Let_def ilog2_zero round_half_even_def)

lemma fl_pos:
  "0 < x \<Longrightarrow>
   fl x = (if 1024 \<le> ilog2 (of_int (round_half_even (x / 2 powi expo x)) * 2 powi expo x)
           then PInf
           else Fin (of_int (round_half_even (x / 2 powi expo x)) * 2 powi expo x))"
  by (simp add: fl_def Let_def)

lemma expo_bounds:
  assumes "0 < a"
  shows "a < 2 powi (expo a + 53)" and "- 1074 \<le> expo a"
proof -
  have "a < 2 powi (ilog2 a + 1)" using ilog2_bounds [OF assms] by simp
  also have "\<dots> \<le> 2 powi (expo a + 53)" by (rule p2_le) (simp add: expo_def)
  finally show "a < 2 powi (expo a + 53)" .
  show "- 1074 \<le> expo a" by (simp add: expo_def)
qed

lemma expo_mono: "0 < x \<Longrightarrow> x \<le> y \<Longrightarrow> expo x \<le> expo y"
  using ilog2_mono [of x y] by (simp add: expo_def)

lemma is_double_pos:
  assumes "is_double d" and "0 < d"
  obtains k where "d = of_int k * 2 powi (expo d)" and "0 < k" and "k < 2 ^ 53"
    and "ilog2 d < 1024"
proof -
  define k where "k = round_half_even (d / 2 powi (expo d))"
  define v where "v = of_int k * (2::rat) powi (expo d)"
  from assms(1) have "fl d = Fin d" by (simp add: is_double_def)
  then have "(if 1024 \<le> ilog2 v then PInf else Fin v) = Fin d"
    unfolding v_def k_def using fl_pos [OF assms(2)] by simp
  then have il: "\<not> 1024 \<le> ilog2 v" and vd: "v = d"
    by (auto split: if_splits)
  have d: "d = of_int k * 2 powi (expo d)" using vd by (simp add: v_def)
  have kpos: "0 < k"
  proof (rule ccontr)
    assume "\<not> 0 < k"
    then have "(of_int k :: rat) \<le> 0" by simp
    then have "of_int k * (2::rat) powi (expo d) \<le> 0"
      by (simp add: mult_le_0_iff)
    with d assms(2) show False by simp
  qed
  have "of_int k * (2::rat) powi (expo d) < 2 powi (expo d + 53)"
    using expo_bounds(1) [OF assms(2)] d by simp
  also have "\<dots> = 2 ^ 53 * 2 powi (expo d)" by (simp add: p2_add)
  finally have "(of_int k :: rat) < 2 ^ 53" by simp
  then have "(of_int k :: rat) < of_int (2 ^ 53)" by simp
  then have k53: "k < 2 ^ 53" by (simp only: of_int_less_iff)
  from il vd have "ilog2 d < 1024" by simp
  with d kpos k53 show ?thesis by (rule that)
qed

lemma fl_exact_pos:
  assumes x: "x = of_int k * 2 powi e" and k: "0 < k" "k < 2 ^ 53"
    and e: "- 1074 \<le> e" and fin: "x < 2 powi 1024"
  shows "fl x = Fin x"
proof -
  define ex where "ex = expo x"
  have xpos: "0 < x" using k(1) by (simp add: x)
  have "x < 2 ^ 53 * 2 powi e"
  proof -
    have "(of_int k :: rat) < of_int (2 ^ 53)" using k(2) by (simp only: of_int_less_iff)
    then show ?thesis by (simp add: x)
  qed
  also have "\<dots> = 2 powi (e + 53)" by (simp add: p2_add)
  finally have "ilog2 x < e + 53" using xpos by (intro ilog2_less)
  with e have ee: "ex \<le> e" by (simp add: expo_def ex_def)
  define j where "j = nat (e - ex)"
  have "(2::rat) powi e = 2 powi ex * 2 powi (e - ex)"
    using p2_add [of ex "e - ex"] by simp
  also have "(2::rat) powi (e - ex) = of_int (2 ^ j)" using ee by (simp add: p2_nat j_def)
  finally have pe: "(2::rat) powi e = 2 powi ex * of_int (2 ^ j)" .
  have xx: "x = of_int (k * 2 ^ j) * 2 powi ex"
    unfolding x pe by simp
  have q: "x / 2 powi ex = of_int (k * 2 ^ j)"
    by (subst xx) simp
  have r: "round_half_even (x / 2 powi ex) = k * 2 ^ j"
    unfolding q by (rule round_half_even_int)
  have il: "ilog2 x < 1024" using xpos fin by (rule ilog2_less)
  have "fl x = (if 1024 \<le> ilog2 (of_int (k * 2 ^ j) * 2 powi ex) then PInf
                else Fin (of_int (k * 2 ^ j) * 2 powi ex))"
    using fl_pos [OF xpos] r unfolding ex_def by simp
  also have "\<dots> = Fin x" using il unfolding xx [symmetric] by simp
  finally show ?thesis .
qed

lemma fl_le_double:
  assumes "0 \<le> x" and "x \<le> d" and "is_double d"
  shows "\<exists>v. fl x = Fin v \<and> 0 \<le> v \<and> v \<le> d"
proof (cases "x = 0")
  case True
  with assms show ?thesis by (simp add: fl_zero)
next
  case False
  with assms have xpos: "0 < x" and dpos: "0 < d" by simp_all
  from assms(3) dpos obtain k where d: "d = of_int k * 2 powi (expo d)"
    and il: "ilog2 d < 1024"
    by (rule is_double_pos)
  have ee: "expo x \<le> expo d" using xpos assms(2) by (rule expo_mono)
  define j where "j = nat (expo d - expo x)"
  have "(2::rat) powi (expo d) = 2 powi (expo x) * 2 powi (expo d - expo x)"
    using p2_add [of "expo x" "expo d - expo x"] by simp
  also have "(2::rat) powi (expo d - expo x) = of_int (2 ^ j)"
    using ee by (simp add: p2_nat j_def)
  finally have pe: "(2::rat) powi (expo d) = 2 powi (expo x) * of_int (2 ^ j)" .
  have dK: "d = of_int (k * 2 ^ j) * 2 powi (expo x)"
    using d by (simp add: pe)
  define y where "y = x / 2 powi (expo x)"
  define v where "v = of_int (round_half_even y) * (2::rat) powi (expo x)"
  have "y \<le> d / 2 powi (expo x)" using assms(2) by (simp add: y_def divide_right_mono)
  also have "\<dots> = of_int (k * 2 ^ j)" using dK by simp
  finally have "round_half_even y \<le> k * 2 ^ j" by (rule round_half_even_le)
  then have "(of_int (round_half_even y) :: rat) \<le> of_int (k * 2 ^ j)"
    by (simp only: of_int_le_iff)
  then have vd: "v \<le> d" unfolding v_def by (subst dK) (simp add: mult_right_mono)
  have "0 \<le> y" using xpos by (simp add: y_def)
  then have "0 \<le> round_half_even y" by (rule round_half_even_nonneg)
  then have v0: "0 \<le> v" by (simp add: v_def)
  have "ilog2 v < 1024"
  proof (cases "v = 0")
    case True
    then show ?thesis by (simp add: ilog2_zero)
  next
    case False
    with v0 have "0 < v" by simp
    then have "ilog2 v \<le> ilog2 d" using vd by (rule ilog2_mono)
    with il show ?thesis by simp
  qed
  then have "fl x = Fin v" using fl_pos [OF xpos] unfolding v_def y_def by simp
  with v0 vd show ?thesis by simp
qed

lemma fl_uminus: "0 < x \<Longrightarrow> fl x = Fin x \<Longrightarrow> fl (- x) = Fin (- x)"
  by (auto simp: fl_def Let_def split: if_splits)

lemma is_double_small: "is_double 0" "is_double 1" "is_double 2" "is_double 60"
  by (simp add: is_double_def fl_zero, code_simp+)

text \<open>A multiple of a power of two at or above the smallest one, of less than 53 bits and
  below the overflow threshold, is a double.\<close>

lemma fl_exact:
  assumes x: "x = of_int k * 2 powi e" and k: "\<bar>k\<bar> < 2 ^ 53"
    and e: "- 1074 \<le> e" and fin: "\<bar>x\<bar> < 2 powi 1024"
  shows "fl x = Fin x"
proof -
  consider "k = 0" | "0 < k" | "k < 0" by linarith
  then show ?thesis
  proof cases
    case 1
    then show ?thesis by (simp add: x fl_zero)
  next
    case 2
    with k have "k < 2 ^ 53" by simp
    moreover have "x < 2 powi 1024" using fin by simp
    ultimately show ?thesis using x 2 e by (intro fl_exact_pos [of x k e])
  next
    case 3
    have mx: "- x = of_int (- k) * 2 powi e" by (simp add: x)
    have "0 < - k" "- k < 2 ^ 53" using 3 k by simp_all
    moreover have "- x < 2 powi 1024" using fin by simp
    ultimately have p: "fl (- x) = Fin (- x)" using mx e by (intro fl_exact_pos [of "- x" "- k" e])
    have "0 < - x" using \<open>0 < - k\<close> by (simp add: mx del: of_int_minus)
    from fl_uminus [OF this p] show ?thesis by simp
  qed
qed

lemma fl_of_int: "\<bar>n\<bar> < 2 ^ 53 \<Longrightarrow> fl (of_int n) = Fin (of_int n)"
proof -
  assume n: "\<bar>n\<bar> < 2 ^ 53"
  then have "(of_int \<bar>n\<bar> :: rat) < of_int (2 ^ 53)" by (simp only: of_int_less_iff)
  then have "\<bar>of_int n :: rat\<bar> < 2 powi 53" by simp
  also have "\<dots> \<le> 2 powi 1024" by (rule p2_le) simp
  finally have "\<bar>of_int n :: rat\<bar> < 2 powi 1024" .
  then show ?thesis using n by (intro fl_exact [of _ n 0]) simp_all
qed


text \<open>Rounding a non-negative value gives an infinity or a non-negative double.\<close>

lemma fl_nonneg_double:
  assumes "0 \<le> x"
  shows "fl x = PInf \<or> (\<exists>v. fl x = Fin v \<and> is_double v \<and> 0 \<le> v)"
proof (cases "x = 0")
  case True
  then show ?thesis using is_double_small(1) by (simp add: fl_zero)
next
  case False
  with assms have xpos: "0 < x" by simp
  define e where "e = expo x"
  define k where "k = round_half_even (x / 2 powi e)"
  define v where "v = of_int k * (2::rat) powi e"
  have flx: "fl x = (if 1024 \<le> ilog2 v then PInf else Fin v)"
    using fl_pos [OF xpos] by (simp add: v_def k_def e_def)
  show ?thesis
  proof (cases "1024 \<le> ilog2 v")
    case True
    then show ?thesis by (simp add: flx)
  next
    case ov: False
    have e1: "- 1074 \<le> e" using expo_bounds(2) [OF xpos] by (simp add: e_def)
    have "0 \<le> x / 2 powi e" using xpos by simp
    then have k0: "0 \<le> k" unfolding k_def by (rule round_half_even_nonneg)
    have "x < 2 powi (e + 53)" using expo_bounds(1) [OF xpos] by (simp add: e_def)
    also have "\<dots> = 2 ^ 53 * 2 powi e" by (simp add: p2_add)
    finally have "x / 2 powi e < 2 ^ 53" by (simp add: pos_divide_less_eq)
    then have "x / 2 powi e \<le> of_int (2 ^ 53)" by simp
    then have k53: "k \<le> 2 ^ 53" unfolding k_def by (rule round_half_even_le)
    have v0: "0 \<le> v" using k0 by (simp add: v_def)
    have fin: "v < 2 powi 1024" if "0 < v"
    proof -
      have "v < 2 powi (ilog2 v + 1)" using ilog2_bounds [OF that] by simp
      also have "\<dots> \<le> 2 powi 1024" using ov by (intro p2_le) simp
      finally show ?thesis .
    qed
    consider "k = 0" | "0 < k" "k < 2 ^ 53" | "k = 2 ^ 53" using k0 k53 by linarith
    then have "fl v = Fin v"
    proof cases
      case 1
      then show ?thesis by (simp add: v_def fl_zero)
    next
      case 2
      then have "0 < v" by (simp add: v_def)
      then have "v < 2 powi 1024" by (rule fin)
      with 2 e1 show ?thesis by (intro fl_exact_pos [of v k e]) (simp_all add: v_def)
    next
      case 3
      then have "0 < v" by (simp add: v_def)
      then have f: "v < 2 powi 1024" by (rule fin)
      have "v = of_int (2 ^ 52) * 2 powi (e + 1)"
        by (simp add: v_def 3 p2_add)
      with e1 f show ?thesis by (intro fl_exact_pos [of v "2 ^ 52" "e + 1"]) simp_all
    qed
    with v0 ov show ?thesis by (simp add: flx is_double_def)
  qed
qed

text \<open>A positive double below \<open>2\<^sup>5\<^sup>3\<close> is a multiple of a non-positive power of two.\<close>

lemma double_grid:
  assumes "is_double f" and "0 < f" and "f < 2 ^ 53"
  obtains k j where "f * of_int (2 ^ j) = of_int k" and "0 < k" and "k < 2 ^ 53"
    and "f = of_int k * 2 powi (- int j)" and "int j \<le> 1074"
proof -
  from assms(1,2) obtain k where f: "f = of_int k * 2 powi (expo f)" and k: "0 < k" "k < 2 ^ 53"
    by (rule is_double_pos)
  have "f < 2 powi 53" using assms(3) by simp
  then have "ilog2 f < 53" using assms(2) by (intro ilog2_less)
  then have e0: "expo f \<le> 0" by (simp add: expo_def)
  have e1: "- 1074 \<le> expo f" using expo_bounds(2) [OF assms(2)] .
  define j where "j = nat (- expo f)"
  have ej: "expo f = - int j" using e0 by (simp add: j_def)
  have "(2::rat) powi (expo f) * of_int (2 ^ j) = 2 powi (expo f) * 2 powi (int j)"
    by simp
  also have "\<dots> = 2 powi (expo f + int j)" by (simp add: p2_add)
  also have "\<dots> = 1" by (simp add: ej)
  finally have one: "(2::rat) powi (expo f) * of_int (2 ^ j) = 1" .
  have "f * of_int (2 ^ j) = of_int k * (2 powi (expo f) * of_int (2 ^ j))"
    by (subst f) (simp only: mult.assoc)
  then have 1: "f * of_int (2 ^ j) = of_int k" by (simp only: one mult_1_right)
  have 2: "f = of_int k * 2 powi (- int j)" using f by (simp only: ej)
  have 3: "int j \<le> 1074" using e1 ej by simp
  from 1 k 2 3 show ?thesis by (rule that)
qed

text \<open>Subtracting an integer \<open>r\<close> with \<open>\<bar>f - r\<bar> \<le> f\<close> from a double \<open>f\<close> below \<open>2\<^sup>5\<^sup>3\<close> is
  exact.\<close>

lemma fl_sub_int:
  assumes "is_double f" and "0 \<le> f" and "f < 2 ^ 53" and "\<bar>f - of_int r\<bar> \<le> f"
  shows "fl (f - of_int r) = Fin (f - of_int r)"
proof (cases "f = 0")
  case True
  with assms(4) have "of_int r = (0::rat)" by simp
  with True show ?thesis by (simp add: fl_zero)
next
  case False
  with assms(2) have fpos: "0 < f" by simp
  from assms(1) fpos assms(3) obtain k j where fk: "f * of_int (2 ^ j) = of_int k"
    and k: "0 < k" "k < 2 ^ 53" and f: "f = of_int k * 2 powi (- int j)" and j: "int j \<le> 1074"
    by (rule double_grid)
  have pj: "(2::rat) powi (- int j) * of_int (2 ^ j) = 1"
    using p2_add [of "- int j" "int j"] by simp
  define k' where "k' = k - r * 2 ^ j"
  have x: "f - of_int r = of_int k' * 2 powi (- int j)"
  proof -
    have "of_int k' * (2::rat) powi (- int j) =
            of_int k * 2 powi (- int j) - of_int r * (2 powi (- int j) * of_int (2 ^ j))"
      by (simp add: k'_def algebra_simps)
    also have "\<dots> = f - of_int r" by (simp only: pj f [symmetric] mult_1_right)
    finally show ?thesis by simp
  qed
  have "\<bar>of_int k' :: rat\<bar> * 2 powi (- int j) \<le> of_int k * 2 powi (- int j)"
    using assms(4) unfolding x f [symmetric] by (simp add: abs_mult)
  then have "\<bar>of_int k' :: rat\<bar> \<le> of_int k" by simp
  then have "(of_int \<bar>k'\<bar> :: rat) \<le> of_int k" by simp
  then have "\<bar>k'\<bar> \<le> k" by (simp only: of_int_le_iff)
  with k have k53: "\<bar>k'\<bar> < 2 ^ 53" by simp
  have "\<bar>f - of_int r\<bar> < 2 powi 53" using assms(3,4) by simp
  also have "\<dots> \<le> 2 powi 1024" by (rule p2_le) simp
  finally have fin: "\<bar>f - of_int r\<bar> < 2 powi 1024" .
  from x k53 _ fin show ?thesis by (rule fl_exact) (use j in simp)
qed

text \<open>The part of a non-negative double under its integer part is a double.\<close>

lemma fl_frac:
  assumes "is_double t" and "0 \<le> t"
  shows "fl (t - of_int \<lfloor>t\<rfloor>) = Fin (t - of_int \<lfloor>t\<rfloor>)"
proof (cases "t < 2 ^ 53")
  case True
  have "0 \<le> \<lfloor>t\<rfloor>" using assms(2) by simp
  then have "(0::rat) \<le> of_int \<lfloor>t\<rfloor>" by simp
  moreover have "of_int \<lfloor>t\<rfloor> \<le> t" by simp
  ultimately have "\<bar>t - of_int \<lfloor>t\<rfloor>\<bar> \<le> t" by simp
  with assms True show ?thesis by (rule fl_sub_int)
next
  case False
  then have t: "2 powi 53 \<le> t" by simp
  then have tpos: "0 < t" using p2_pos [of 53] by linarith
  from assms(1) tpos obtain k where f: "t = of_int k * 2 powi (expo t)"
    by (rule is_double_pos)
  have "53 \<le> ilog2 t" using tpos t by (rule ilog2_ge)
  then have e: "0 \<le> expo t" by (simp add: expo_def)
  have "t = of_int (k * 2 ^ nat (expo t))" by (subst f) (simp add: p2_nat [OF e])
  then have "t - of_int \<lfloor>t\<rfloor> = 0" by (metis diff_self floor_of_int)
  then show ?thesis by (simp add: fl_zero)
qed

section \<open>Properties of the settlement arithmetic\<close>

lemma settlement_arith:
  assumes f: "is_double f" "0 \<le> f" "f < 2 ^ 53" and A: "0 \<le> A" "A \<le> 100"
  obtains a where "js_mul (js_div (Fin A) (Fin 100)) (Fin f) = Fin a" and "0 \<le> a" and "a \<le> f"
    and "js_sub (Fin f) (js_round (Fin a)) = Fin (f - of_int (round a))"
    and "js_add (Fin (f - of_int (round a))) (js_round (Fin a)) = Fin f"
proof -
  have "0 \<le> A / 100" "A / 100 \<le> 1" using A by simp_all
  from fl_le_double [OF this is_double_small(2)]
  obtain c where c: "fl (A / 100) = Fin c" "0 \<le> c" "c \<le> 1" by blast
  have "0 \<le> c * f" "c * f \<le> f" using c f(2) by (simp_all add: mult_left_le_one_le)
  from fl_le_double [OF this f(1)]
  obtain a where a: "fl (c * f) = Fin a" "0 \<le> a" "a \<le> f" by blast
  have 1: "js_mul (js_div (Fin A) (Fin 100)) (Fin f) = Fin a" by (simp add: c a)
  define r where "r = round a"
  have r0: "0 \<le> r" using a(2) by (simp add: r_def round_def)
  have rr: "of_int r \<le> a + 1 / 2" by (simp add: r_def round_def)
  have "\<bar>f - of_int r\<bar> \<le> f"
  proof (cases "a < 1 / 2")
    case True
    then have "r = 0" using a(2) by (simp add: r_def round_def floor_eq_iff)
    then show ?thesis using f(2) by simp
  next
    case False
    then have "of_int r \<le> 2 * a" using rr by linarith
    then have "of_int r \<le> 2 * f" using a(3) by linarith
    moreover have "(0::rat) \<le> of_int r" using r0 by simp
    ultimately show ?thesis by (simp add: abs_le_iff)
  qed
  with f have ex: "fl (f - of_int r) = Fin (f - of_int r)" by (rule fl_sub_int)
  have 2: "js_sub (Fin f) (js_round (Fin a)) = Fin (f - of_int (round a))"
    using ex by (simp add: js_sub_def r_def round_def)
  have 3: "js_add (Fin (f - of_int (round a))) (js_round (Fin a)) = Fin f"
    using f(1) by (simp add: is_double_def round_def)
  from 1 a(2,3) 2 3 show ?thesis by (rule that)
qed

section \<open>Properties of the persistence model\<close>

lemma updateFirst_length: "length (updateFirst p f xs) = length xs"
  by (induction xs) auto

lemma updateFirst_nth:
  "i < length xs \<Longrightarrow>
   updateFirst p f xs ! i = (if p (xs ! i) \<and> (\<forall>j<i. \<not> p (xs ! j)) then f (xs ! i) else xs ! i)"
proof (induction xs arbitrary: i)
  case Nil
  then show ?case by simp
next
  case (Cons x xs)
  show ?case
  proof (cases i)
    case 0
    then show ?thesis by simp
  next
    case (Suc k)
    with Cons.prems have k: "k < length xs" by simp
    show ?thesis
    proof (cases "p x")
      case True
      then show ?thesis using Suc by auto
    next
      case False
      have h: "(\<forall>j<Suc k. \<not> p ((x # xs) ! j)) = (\<forall>j<k. \<not> p (xs ! j))"
        using False by (auto simp: less_Suc_eq_0_disj)
      have "updateFirst p f (x # xs) ! i = updateFirst p f xs ! k"
        using False Suc by simp
      also have "\<dots> = (if p (xs ! k) \<and> (\<forall>j<k. \<not> p (xs ! j)) then f (xs ! k) else xs ! k)"
        by (rule Cons.IH[OF k])
      also have "\<dots> = (if p ((x # xs) ! i) \<and> (\<forall>j<i. \<not> p ((x # xs) ! j))
                          then f ((x # xs) ! i) else (x # xs) ! i)"
        unfolding Suc by (simp only: h nth_Cons_Suc)
      finally show ?thesis .
    qed
  qed
qed

section \<open>The guard on the customer's connection\<close>

text \<open>
  Claim C9. When the customer named in the signal has no entry in the connection registry,
  \<open>endDeliveryNotification\<close> changes nothing: no status, no busy flag, no wallet, no
  admin-fee record, and the cache entry stays; \<open>startDeliveryNotification\<close> has the same
  guard.
\<close>

theorem disconnected_customer_noop:
  "socketMap_get st cid = None \<Longrightarrow>
   endDeliveryNotification ADMIN_CHARGES newId st cid = (None, st) \<and>
   startDeliveryNotification st cid = (None, st)"
  by (simp add: endDeliveryNotification_def startDeliveryNotification_def)

theorem disconnected_customer_noop_witness:
  "socketMap_get st_offline ''c1'' = None \<and>
   endDeliveryNotification 10 ''w9'' st_offline ''c1'' = (None, st_offline) \<and>
   startDeliveryNotification st_offline ''c1'' = (None, st_offline)"
  using disconnected_customer_noop [of st_offline "''c1''" 10 "''w9''"]
  by (simp add: st_offline_def socketMap_get_def)

section \<open>Settlement\<close>

text \<open>
  Claim C1. For a completed delivery (the customer is connected, the cache holds the
  match record and the delivery it names exists) whose fee \<open>f\<close> is a non-negative double
  below \<open>2\<^sup>5\<^sup>3\<close>, and a charge between 0 and 100 percent: the admin fee is the product
  \<open>ADMIN_CHARGES / 100 * f\<close> as the source's arithmetic computes it, a finite number
  between 0 and \<open>f\<close>, and the admin-fee record that \<open>endDeliveryNotification\<close> appends
  carries it; the rider's fee is \<open>f - round adminFee\<close> without any rounding error, so the
  rider's fee and the rounded admin fee add up to \<open>f\<close>; a rider without a wallet gets one
  holding exactly the rider's fee.
\<close>

theorem endDelivery_settlement_conservative:
  assumes "socketMap_get st cid = Some s"
    and "redis st = Some m"
    and "find (\<lambda>d. d_id d = deliveryId m) (deliveries st) = Some d"
    and "d_deliveryFee d = Fin f" and "is_double f" and "0 \<le> f" and "f < 2 ^ 53"
    and "0 \<le> A" and "A \<le> 100"
  shows "\<exists>a. js_mul (js_div (Fin A) (Fin 100)) (Fin f) = Fin a \<and> 0 \<le> a \<and> a \<le> f \<and>
           adminFees (snd (endDeliveryNotification A newId st cid)) =
             adminFees st @ [\<lparr>af_deliveryRefNumber = deliveryRefNumber m, af_rider = riderId m,
                              af_adminFee = Some (Fin a)\<rparr>] \<and>
           riderFee_of A (Some (d\<lparr>d_status := DELIVERED\<rparr>)) =
             Some (Fin (f - of_int (round a))) \<and>
           js_add (Fin (f - of_int (round a))) (js_round (Fin a)) = Fin f \<and>
           (findByAny (\<lambda>w. w_rider w = riderId m) (riderWallets st) = None \<longrightarrow>
              riderWallets (snd (endDeliveryNotification A newId st cid)) =
                riderWallets st @ [\<lparr>w_id = newId, w_rider = riderId m,
                                    w_balance = Some (Fin (f - of_int (round a)))\<rparr>])"
proof -
  from assms(5-9) obtain a
    where a: "js_mul (js_div (Fin A) (Fin 100)) (Fin f) = Fin a" "0 \<le> a" "a \<le> f"
      and sub: "js_sub (Fin f) (js_round (Fin a)) = Fin (f - of_int (round a))"
      and add: "js_add (Fin (f - of_int (round a))) (js_round (Fin a)) = Fin f"
    by (rule settlement_arith)
  define d' where "d' = d\<lparr>d_status := DELIVERED\<rparr>"
  have fee: "d_deliveryFee d' = Fin f" using assms(4) by (simp add: d'_def)
  have af: "adminFee_of A (Some d') = Some (Fin a)"
    unfolding adminFee_of_def using a(1) fee by (simp del: js_mul.simps js_div.simps)
  have rf: "riderFee_of A (Some d') = Some (Fin (f - of_int (round a)))"
    unfolding riderFee_of_def using af sub fee by (simp del: js_round.simps)
  have upd: "fst (updateByAny (\<lambda>d. d_id d = deliveryId m) (\<lambda>d. d\<lparr>d_status := DELIVERED\<rparr>)
               (deliveries st)) = Some d'"
    using assms(3) by (simp add: updateByAny_def d'_def)
  have 1: "adminFees (snd (endDeliveryNotification A newId st cid)) =
             adminFees st @ [\<lparr>af_deliveryRefNumber = deliveryRefNumber m, af_rider = riderId m,
                              af_adminFee = Some (Fin a)\<rparr>]"
    using assms(1,2) upd af
    by (simp add: endDeliveryNotification_def Let_def emit_def create_def split: option.splits)
  have 2: "riderWallets (snd (endDeliveryNotification A newId st cid)) =
             riderWallets st @ [\<lparr>w_id = newId, w_rider = riderId m,
                                 w_balance = Some (Fin (f - of_int (round a)))\<rparr>]"
    if "findByAny (\<lambda>w. w_rider w = riderId m) (riderWallets st) = None"
    using assms(1,2) upd rf that
    by (simp add: endDeliveryNotification_def Let_def emit_def create_def)
  show ?thesis
  proof (intro exI [of _ a] conjI impI)
    show "js_mul (js_div (Fin A) (Fin 100)) (Fin f) = Fin a" by (rule a(1))
    show "0 \<le> a" by (rule a(2))
    show "a \<le> f" by (rule a(3))
    show "adminFees (snd (endDeliveryNotification A newId st cid)) =
            adminFees st @ [\<lparr>af_deliveryRefNumber = deliveryRefNumber m, af_rider = riderId m,
                             af_adminFee = Some (Fin a)\<rparr>]" by (rule 1)
    show "riderFee_of A (Some (d\<lparr>d_status := DELIVERED\<rparr>)) =
            Some (Fin (f - of_int (round a)))" using rf by (simp only: d'_def)
    show "js_add (Fin (f - of_int (round a))) (js_round (Fin a)) = Fin f" by (rule add)
    show "riderWallets (snd (endDeliveryNotification A newId st cid)) =
            riderWallets st @ [\<lparr>w_id = newId, w_rider = riderId m,
                                w_balance = Some (Fin (f - of_int (round a)))\<rparr>]"
      if "findByAny (\<lambda>w. w_rider w = riderId m) (riderWallets st) = None"
      using that by (rule 2)
  qed
qed

text \<open>A fee of 90 at 35 percent: the admin fee is the double just below 31.5
  (31.499999999999996), which rounds to 31, and the rider's fee is 59.\<close>

theorem endDelivery_settlement_conservative_witness:
  "socketMap_get st_fee90 ''c1'' = Some \<lparr>sock_id = ''s1''\<rparr> \<and> redis st_fee90 = Some cache0 \<and>
   is_double 90 \<and>
   adminFees (snd (endDeliveryNotification 35 ''w9'' st_fee90 ''c1'')) =
     [\<lparr>af_deliveryRefNumber = ''REF1'', af_rider = ''r1'',
       af_adminFee = Some (Fin (8866461766385663 / 2 ^ 48))\<rparr>] \<and>
   riderWallets (snd (endDeliveryNotification 35 ''w9'' st_fee90 ''c1'')) =
     [\<lparr>w_id = ''w9'', w_rider = ''r1'', w_balance = Some (Fin 59)\<rparr>]"
proof -
  define d where "d = \<lparr>d_id = ''d1'', d_status = PENDING, d_deliveryFee = Fin 90,
                         d_rider = None, d_customer = ''c1'', d_senderLocation = (0, 0)\<rparr>"
  have 1: "socketMap_get st_fee90 ''c1'' = Some \<lparr>sock_id = ''s1''\<rparr>"
    by (simp add: st_fee90_def st0_def socketMap_get_def)
  have 2: "redis st_fee90 = Some cache0" by (simp add: st_fee90_def st0_def)
  have 3: "find (\<lambda>d. d_id d = deliveryId cache0) (deliveries st_fee90) = Some d"
    by (simp add: st_fee90_def st0_def cache0_def d_def)
  have 4: "d_deliveryFee d = Fin 90" by (simp add: d_def)
  have 5: "is_double 90" by code_simp
  have w: "findByAny (\<lambda>w. w_rider w = riderId cache0) (riderWallets st_fee90) = None"
    by (simp add: st_fee90_def st0_def findByAny_def)
  have e: "js_mul (js_div (Fin 35) (Fin 100)) (Fin 90) = Fin (8866461766385663 / 2 ^ 48)"
    by code_simp
  have r: "round (8866461766385663 / 2 ^ 48 :: rat) = 31" by code_simp
  from endDelivery_settlement_conservative [OF 1 2 3 4 5, of 35 "''w9''"] w
  obtain a where a: "js_mul (js_div (Fin 35) (Fin 100)) (Fin 90) = Fin a"
    and af: "adminFees (snd (endDeliveryNotification 35 ''w9'' st_fee90 ''c1'')) =
               adminFees st_fee90 @
                 [\<lparr>af_deliveryRefNumber = deliveryRefNumber cache0, af_rider = riderId cache0,
                   af_adminFee = Some (Fin a)\<rparr>]"
    and rw: "riderWallets (snd (endDeliveryNotification 35 ''w9'' st_fee90 ''c1'')) =
               riderWallets st_fee90 @
                 [\<lparr>w_id = ''w9'', w_rider = riderId cache0,
                   w_balance = Some (Fin (90 - of_int (round a)))\<rparr>]"
    by auto
  from a e have "a = 8866461766385663 / 2 ^ 48" by simp
  with af rw r 1 2 5 show ?thesis
    by (simp add: st_fee90_def st0_def cache0_def)
qed

lemma updateFirst_no_match: "\<forall>x\<in>set xs. \<not> flt x \<Longrightarrow> updateFirst flt patch xs = xs"
  by (induction xs) auto

text \<open>When the rider has a wallet and no wallet's \<open>_id\<close> is the rider's identity, the
  settlement leaves every wallet as it was.\<close>

lemma endDelivery_wallets_unchanged:
  assumes "socketMap_get st cid = Some s" and "redis st = Some m"
    and "findByAny (\<lambda>w. w_rider w = riderId m) (riderWallets st) = Some w"
    and "\<forall>x\<in>set (riderWallets st). w_id x \<noteq> riderId m"
  shows "riderWallets (snd (endDeliveryNotification A newId st cid)) = riderWallets st"
  using assms
  by (simp add: endDeliveryNotification_def Let_def emit_def updateByAny_def dao_update_def
      findByAny_def updateFirst_no_match)

text \<open>
  Claim C2. A rider who has a wallet is to have its balance raised by the rider's fee. The
  wallet is looked up by \<open>{rider: riderId}\<close> but patched through the filter
  \<open>{_id: riderId}\<close>: in \<open>st_wallet\<close> the rider \<open>r1\<close> owns the wallet \<open>w1\<close> with balance 50, the
  rider's fee of the 100-unit delivery at 10 percent is 90, and after
  \<open>endDeliveryNotification\<close> the balance is still 50.
\<close>

theorem endDelivery_existing_wallet_not_credited:
  "findByAny (\<lambda>w. w_rider w = riderId cache0) (riderWallets st_wallet) =
     Some \<lparr>w_id = ''w1'', w_rider = ''r1'', w_balance = Some (Fin 50)\<rparr> \<and>
   riderFee_of 10 (find (\<lambda>d. d_id d = deliveryId cache0) (deliveries st_wallet)) = Some (Fin 90) \<and>
   riderWallets (snd (endDeliveryNotification 10 ''w9'' st_wallet ''c1'')) =
     [\<lparr>w_id = ''w1'', w_rider = ''r1'', w_balance = Some (Fin 50)\<rparr>]"
  by code_simp

section \<open>Reverse lookup in the connection registry\<close>

lemma findRiderIdBySocketId_None: "findRiderIdBySocketId m socketId = None"
  by (induction m socketId rule: findRiderIdBySocketId.induct) auto

text \<open>
  Claim C8. Reverse lookup by a connection identity is to return the identity registered
  with that connection. The loop compares each connection object itself, not its \<open>id\<close>,
  with the string: after the rider \<open>r1\<close> registers on the connection \<open>abc\<close>, the lookup of
  \<open>abc\<close> returns \<open>undefined\<close>.
\<close>

theorem reverse_lookup_misses_registered:
  "socketMap_get (on_riderId st0 \<lparr>sock_id = ''abc''\<rparr> ''r1'') ''r1'' =
     Some \<lparr>sock_id = ''abc''\<rparr> \<and>
   findRiderIdBySocketId (socketMap (on_riderId st0 \<lparr>sock_id = ''abc''\<rparr> ''r1'')) ''abc'' =
     None"
  by (simp add: on_riderId_def st0_def socketMap_get_def)

section \<open>Response relay: a decline\<close>

text \<open>
  Claim C5 as stated fails for a customer without a connection: the decline of a rider
  leaves the match record in the cache and emits nothing.
\<close>

theorem decline_disconnected_counterexample:
  "redis (snd (notifyUserAboutDriverResponse st_offline
      \<lparr>dr_riderId = ''r1'', dr_customerId = ''c1'', dr_availability = False\<rparr>)) =
     Some cache0 \<and>
   emitted (snd (notifyUserAboutDriverResponse st_offline
      \<lparr>dr_riderId = ''r1'', dr_customerId = ''c1'', dr_availability = False\<rparr>)) = []"
  by (simp add: notifyUserAboutDriverResponse_def st_offline_def st0_def socketMap_get_def)

text \<open>
  Claim C5, amended. For a driver response with \<open>availability = false\<close> whose customer has
  a connection in the registry, the relay emits \<open>riderDeclined\<close> on that connection and
  deletes the match record, which is not readable afterwards; when the customer has no
  connection the relay does nothing.
\<close>

theorem decline_relay_guarded:
  assumes "\<not> dr_availability resp"
  shows "(case socketMap_get st (dr_customerId resp) of
            Some customerSocket \<Rightarrow>
              emitted (snd (notifyUserAboutDriverResponse st resp)) =
                emitted st @ [(sock_id customerSocket, ''riderDeclined'')] \<and>
              redis (snd (notifyUserAboutDriverResponse st resp)) = None
          | None \<Rightarrow> notifyUserAboutDriverResponse st resp = (None, st))"
  using assms
  by (simp add: notifyUserAboutDriverResponse_def Let_def emit_def riderAvailability_def
      split: option.splits)

theorem decline_relay_guarded_witness:
  "\<not> dr_availability \<lparr>dr_riderId = ''r1'', dr_customerId = ''c1'', dr_availability = False\<rparr> \<and>
   emitted (snd (notifyUserAboutDriverResponse st0
      \<lparr>dr_riderId = ''r1'', dr_customerId = ''c1'', dr_availability = False\<rparr>)) =
     [(''s1'', ''riderDeclined'')] \<and>
   redis (snd (notifyUserAboutDriverResponse st0
      \<lparr>dr_riderId = ''r1'', dr_customerId = ''c1'', dr_availability = False\<rparr>)) = None"
  using decline_relay_guarded
    [of "\<lparr>dr_riderId = ''r1'', dr_customerId = ''c1'', dr_availability = False\<rparr>" st0]
  by (simp add: st0_def socketMap_get_def)

section \<open>Status transitions\<close>

text \<open>
  Claim C4 as stated fails: \<open>endDeliveryNotification\<close> takes the pending, unassigned
  delivery of \<open>st0\<close> straight to \<open>delivered\<close>, which is no step of the chain.
\<close>

theorem lifecycle_skips_stages_counterexample:
  "stage_of (deliveries st0 ! 0) = Pending \<and>
   stage_of (deliveries (snd (endDeliveryNotification 10 ''w9'' st0 ''c1'')) ! 0) = Delivered \<and>
   \<not> spec_transition Pending Delivered"
  by (simp add: st0_def cache0_def endDeliveryNotification_def Let_def emit_def
      updateByAny_def socketMap_get_def stage_of_def findByAny_def create_def)

lemma start_deliveries:
  "socketMap_get st cid = Some s \<Longrightarrow> redis st = Some m \<Longrightarrow>
   deliveries (snd (startDeliveryNotification st cid)) =
     updateFirst (\<lambda>d. d_id d = deliveryId m) (\<lambda>d. d\<lparr>d_status := ON_TRANSIT\<rparr>) (deliveries st)"
  by (simp add: startDeliveryNotification_def Let_def emit_def updateByAny_def)

lemma end_deliveries:
  "socketMap_get st cid = Some s \<Longrightarrow> redis st = Some m \<Longrightarrow>
   deliveries (snd (endDeliveryNotification A newId st cid)) =
     updateFirst (\<lambda>d. d_id d = deliveryId m) (\<lambda>d. d\<lparr>d_status := DELIVERED\<rparr>) (deliveries st)"
  by (simp add: endDeliveryNotification_def Let_def emit_def updateByAny_def
      split: option.splits)

text \<open>
  Claim C4, amended. The lifecycle controller checks no prior stage. With the customer
  connected and a match record in the cache, \<open>startDeliveryNotification\<close> sets the status
  of the delivery the match record names (the first with that \<open>_id\<close>) to \<open>on_transit\<close> and
  \<open>endDeliveryNotification\<close> sets it to \<open>delivered\<close>, whatever its status was; the status
  of every other delivery is unchanged, and no delivery is added or removed.
\<close>

theorem lifecycle_sets_status_unconditionally:
  assumes "socketMap_get st cid = Some s" and "redis st = Some m"
    and "i < length (deliveries st)"
  shows "d_status (deliveries (snd (startDeliveryNotification st cid)) ! i) =
           (if d_id (deliveries st ! i) = deliveryId m \<and>
               (\<forall>j<i. d_id (deliveries st ! j) \<noteq> deliveryId m)
            then ON_TRANSIT else d_status (deliveries st ! i)) \<and>
         d_status (deliveries (snd (endDeliveryNotification A newId st cid)) ! i) =
           (if d_id (deliveries st ! i) = deliveryId m \<and>
               (\<forall>j<i. d_id (deliveries st ! j) \<noteq> deliveryId m)
            then DELIVERED else d_status (deliveries st ! i)) \<and>
         length (deliveries (snd (startDeliveryNotification st cid))) = length (deliveries st) \<and>
         length (deliveries (snd (endDeliveryNotification A newId st cid))) =
           length (deliveries st)"
proof -
  define ds where "ds = deliveries st"
  define c where
    "c \<longleftrightarrow> d_id (ds ! i) = deliveryId m \<and> (\<forall>j<i. d_id (ds ! j) \<noteq> deliveryId m)"
  have i: "i < length ds" using assms(3) by (simp add: ds_def)
  have nth: "updateFirst (\<lambda>d. d_id d = deliveryId m) f ds ! i = (if c then f (ds ! i) else ds ! i)"
    for f unfolding c_def by (rule updateFirst_nth [OF i])
  have s1: "d_status (deliveries (snd (startDeliveryNotification st cid)) ! i) =
              (if c then ON_TRANSIT else d_status (ds ! i))"
    using nth by (simp add: start_deliveries [OF assms(1,2)] ds_def)
  have s2: "d_status (deliveries (snd (endDeliveryNotification A newId st cid)) ! i) =
              (if c then DELIVERED else d_status (ds ! i))"
    using nth by (simp add: end_deliveries [OF assms(1,2)] ds_def)
  have l1: "length (deliveries (snd (startDeliveryNotification st cid))) = length ds"
    by (simp add: start_deliveries [OF assms(1,2)] updateFirst_length ds_def)
  have l2: "length (deliveries (snd (endDeliveryNotification A newId st cid))) = length ds"
    by (simp add: end_deliveries [OF assms(1,2)] updateFirst_length ds_def)
  from s1 s2 l1 l2 show ?thesis unfolding c_def ds_def by (intro conjI)
qed

theorem lifecycle_sets_status_unconditionally_witness:
  "socketMap_get st0 ''c1'' = Some \<lparr>sock_id = ''s1''\<rparr> \<and> redis st0 = Some cache0 \<and>
   0 < length (deliveries st0) \<and>
   d_status (deliveries st0 ! 0) = PENDING \<and>
   d_status (deliveries (snd (startDeliveryNotification st0 ''c1'')) ! 0) = ON_TRANSIT \<and>
   d_status (deliveries (snd (endDeliveryNotification 10 ''w9'' st0 ''c1'')) ! 0) = DELIVERED"
  using lifecycle_sets_status_unconditionally
    [of st0 "''c1''" "\<lparr>sock_id = ''s1''\<rparr>" cache0 0 10 "''w9''"]
  by (simp add: st0_def cache0_def socketMap_get_def)

section \<open>Rider discovery: the chosen rider\<close>

lemma pickRider_find:
  "pickRider f rs =
     (case find (\<lambda>rl. eligible (f (rl_rider rl))) rs of
        None \<Rightarrow> None
      | Some rl \<Rightarrow> f (rl_rider rl))"
  by (induction rs) auto

lemma pickRider_Some:
  assumes "pickRider f rs = Some r"
  shows "\<exists>i<length rs. f (rl_rider (rs ! i)) = Some r \<and> eligible (Some r) \<and>
           (\<forall>j<i. \<not> eligible (f (rl_rider (rs ! j))))"
proof -
  from assms obtain rl where rl: "find (\<lambda>rl. eligible (f (rl_rider rl))) rs = Some rl"
    and r: "f (rl_rider rl) = Some r"
    by (auto simp: pickRider_find split: option.splits)
  from rl obtain i where "i < length rs" "eligible (f (rl_rider (rs ! i)))" "rl = rs ! i"
    "\<forall>j<i. \<not> eligible (f (rl_rider (rs ! j)))"
    by (auto simp: find_Some_iff)
  with r show ?thesis by auto
qed

lemma eligible_Some: "eligible r \<Longrightarrow> \<exists>x. r = Some x"
  by (cases r) (simp_all add: eligible_def)

lemma pickRider_None_set:
  "pickRider f rs = None \<longleftrightarrow> (\<forall>rl\<in>set rs. \<not> eligible (f (rl_rider rl)))"
  by (induction rs) (auto dest: eligible_Some)

lemma pickRider_None:
  "pickRider f rs = None \<longleftrightarrow> (\<forall>k<length rs. \<not> eligible (f (rl_rider (rs ! k))))"
  by (simp add: pickRider_None_set all_set_conv_all_nth)

lemma pickRider_nonempty: "pickRider f rs = Some r \<Longrightarrow> rs \<noteq> []"
  by (cases rs) auto

lemma findRiders_Inr:
  assumes "delivery_findAll dao cust = Some dlv" and "dlv \<noteq> []"
    and "findRiders C dao cust = Inr res"
  shows "pickRider (rider_findById dao)
           (riderLocation_aggregate dao (d_senderLocation (last dlv))) = Some (result_rider res)"
  using assms
  by (auto simp: findRiders_def Let_def split: option.splits if_splits)

text \<open>
  Claim C3. Let \<open>rs\<close> be the riders the radius query returns for the customer's last
  delivery, sorted ascending by distance. When discovery answers, the rider it returns is
  the one of the first entry of \<open>rs\<close> whose rider is online and active: it is online and
  active itself, no entry before it is, and so none of the online and active riders is
  nearer; a rider who is not online or not active is never chosen, however near. When
  discovery fails, no entry of \<open>rs\<close> has an online and active rider.
\<close>

theorem findRiders_selects_first_eligible:
  assumes "delivery_findAll dao cust = Some dlv" and "dlv \<noteq> []"
    and "rs = riderLocation_aggregate dao (d_senderLocation (last dlv))"
    and "sorted (map rl_distance rs)"
  shows "(case findRiders C dao cust of
            Inr res \<Rightarrow>
              \<exists>i<length rs.
                rider_findById dao (rl_rider (rs ! i)) = Some (result_rider res) \<and>
                r_status (result_rider res) = ''online'' \<and>
                r_active (result_rider res) = Some True \<and>
                (\<forall>j<i. \<not> eligible (rider_findById dao (rl_rider (rs ! j)))) \<and>
                (\<forall>k<length rs. eligible (rider_findById dao (rl_rider (rs ! k))) \<longrightarrow>
                     rl_distance (rs ! i) \<le> rl_distance (rs ! k))
          | Inl e \<Rightarrow> \<forall>k<length rs. \<not> eligible (rider_findById dao (rl_rider (rs ! k))))"
proof (cases "findRiders C dao cust")
  case (Inl e)
  have "rs = [] \<or> pickRider (rider_findById dao) rs = None"
    using Inl assms(1,2,3)
    by (auto simp: findRiders_def Let_def split: option.splits if_splits)
  then have "\<forall>k<length rs. \<not> eligible (rider_findById dao (rl_rider (rs ! k)))"
    by (auto simp: pickRider_None)
  with Inl show ?thesis by simp
next
  case (Inr res)
  have "pickRider (rider_findById dao) rs = Some (result_rider res)"
    using findRiders_Inr [OF assms(1,2) Inr] assms(3) by simp
  then obtain i where i: "i < length rs"
    and f: "rider_findById dao (rl_rider (rs ! i)) = Some (result_rider res)"
    and e: "eligible (Some (result_rider res))"
    and first: "\<forall>j<i. \<not> eligible (rider_findById dao (rl_rider (rs ! j)))"
    using pickRider_Some by blast
  have near: "rl_distance (rs ! i) \<le> rl_distance (rs ! k)"
    if k: "k < length rs" and ek: "eligible (rider_findById dao (rl_rider (rs ! k)))" for k
  proof -
    from first ek have "i \<le> k" by (meson not_le_imp_less)
    with assms(4) k have "map rl_distance rs ! i \<le> map rl_distance rs ! k"
      by (simp add: sorted_iff_nth_mono)
    with i k show ?thesis by simp
  qed
  from e have "r_status (result_rider res) = ''online''"
    and "r_active (result_rider res) = Some True"
    by (simp_all add: eligible_def)
  with i f first near have
    "\<exists>i<length rs.
       rider_findById dao (rl_rider (rs ! i)) = Some (result_rider res) \<and>
       r_status (result_rider res) = ''online'' \<and>
       r_active (result_rider res) = Some True \<and>
       (\<forall>j<i. \<not> eligible (rider_findById dao (rl_rider (rs ! j)))) \<and>
       (\<forall>k<length rs. eligible (rider_findById dao (rl_rider (rs ! k))) \<longrightarrow>
            rl_distance (rs ! i) \<le> rl_distance (rs ! k))"
    by blast
  with Inr show ?thesis by simp
qed

text \<open>The scenario of three riders, the nearest offline: the second is chosen.\<close>

theorem findRiders_selects_first_eligible_witness:
  "delivery_findAll dao0 ''c1'' = Some [delivery0] \<and>
   sorted (map rl_distance riders0) \<and>
   findRiders speeds0 dao0 ''c1'' = Inr \<lparr>arrivalTime = Fin 16, result_rider = riderB\<rparr> \<and>
   (\<exists>i<length riders0.
      rider_findById dao0 (rl_rider (riders0 ! i)) = Some riderB \<and>
      r_status riderB = ''online'' \<and>
      r_active riderB = Some True \<and>
      (\<forall>j<i. \<not> eligible (rider_findById dao0 (rl_rider (riders0 ! j)))) \<and>
      (\<forall>k<length riders0. eligible (rider_findById dao0 (rl_rider (riders0 ! k))) \<longrightarrow>
           rl_distance (riders0 ! i) \<le> rl_distance (riders0 ! k)))"
proof -
  have 1: "delivery_findAll dao0 ''c1'' = Some [delivery0]" by (simp add: dao0_def)
  have 2: "[delivery0] \<noteq> []" by simp
  have 3: "riders0 = riderLocation_aggregate dao0 (d_senderLocation (last [delivery0]))"
    by (simp add: dao0_def)
  have 4: "sorted (map rl_distance riders0)" by (simp add: riders0_def)
  have 5: "findRiders speeds0 dao0 ''c1'' = Inr \<lparr>arrivalTime = Fin 16, result_rider = riderB\<rparr>"
    by code_simp
  show ?thesis
    using findRiders_selects_first_eligible [OF 1 2 3 4, of speeds0] 1 4 5 by simp
qed

section \<open>Rider discovery: failures\<close>

text \<open>When discovery rejects with \<open>NotFound\<close>: the delivery lookup returned \<open>null\<close>, or it
  returned a non-empty array and the radius query returned no rider or no rider that is
  online and active.\<close>

lemma findRiders_NotFound_iff:
  "(\<exists>msg. findRiders C dao cust = Inl (NotFound msg)) \<longleftrightarrow>
     (case delivery_findAll dao cust of
        None \<Rightarrow> True
      | Some dlv \<Rightarrow>
          dlv \<noteq> [] \<and>
          (riderLocation_aggregate dao (d_senderLocation (last dlv)) = [] \<or>
           pickRider (rider_findById dao)
             (riderLocation_aggregate dao (d_senderLocation (last dlv))) = None))"
  by (auto simp: findRiders_def Let_def split: option.splits)

text \<open>
  Claim C6. A customer without any delivery record is to be rejected with \<open>NotFound\<close>.
  The guard \<open>if (!delivery)\<close> tests the array that \<open>findAll\<close> returns, and an empty array
  is truthy: for the customer \<open>c2\<close>, who has no delivery, discovery goes on to read
  \<open>senderLocation\<close> of \<open>undefined\<close> and fails with a \<open>TypeError\<close>.
\<close>

theorem findRiders_no_delivery_TypeError:
  "delivery_findAll dao0 ''c2'' = Some [] \<and> findRiders speeds0 dao0 ''c2'' = Inl TypeError"
  by code_simp

section \<open>Rider discovery: the arrival time\<close>

text \<open>For a computed \<open>minutes\<close> that is a whole number (of less than 53 bits) the floor
  holds.\<close>

lemma arrivalTime_of_int:
  assumes "\<bar>n\<bar> < 2 ^ 53"
  shows "arrivalTime_of (Fin (of_int n)) = Fin (of_int (max 2 n))"
proof (cases "n \<le> 2")
  case True
  then have "(of_int n :: rat) \<le> 2" by (metis of_int_le_iff of_int_numeral)
  moreover have "fl 2 = Fin 2" using is_double_small(3) by (simp add: is_double_def)
  ultimately show ?thesis using True by (simp add: arrivalTime_of_def max_def)
next
  case False
  then have "\<not> (of_int n :: rat) \<le> 2" by (metis of_int_le_iff of_int_numeral)
  then show ?thesis using False fl_of_int [OF assms] by (simp add: arrivalTime_of_def max_def)
qed

lemma arrivalTime_of_floor:
  "\<bar>n\<bar> < 2 ^ 53 \<Longrightarrow> js_le (Fin 2) (arrivalTime_of (Fin (of_int n)))"
  by (simp add: arrivalTime_of_int)

text \<open>
  Claim C7. The reported arrival time is to be at least 2 minutes. When the chosen rider
  has no vehicle record the speed stays 0, the estimate is infinite, \<open>minutes\<close> is NaN, the
  test \<open>minutes <= 2\<close> is false and the reported arrival time is NaN, which is not at
  least 2.
\<close>

theorem findRiders_no_vehicle_NaN:
  "findRiders speeds0 dao_novehicle ''c1'' = Inr \<lparr>arrivalTime = NaN, result_rider = riderB\<rparr> \<and>
   \<not> js_le (Fin 2) NaN"
  by code_simp

text \<open>The minutes of a finite, non-negative estimate \<open>t\<close>: the subtraction of the whole
  hours is exact, the product with 60 is rounded to a double \<open>v\<close> between 0 and 60, and
  \<open>minutes\<close> is \<open>round v\<close>.\<close>

lemma minutes_of_double:
  assumes "is_double t" and "0 \<le> t"
  obtains v where "js_mul (Fin (t - of_int \<lfloor>t\<rfloor>)) (Fin 60) = Fin v" and "0 \<le> v" and "v \<le> 60"
    and "minutes_of (Fin t) = Fin (of_int (round v))"
proof -
  define q where "q = t - of_int \<lfloor>t\<rfloor>"
  have q: "0 \<le> q" "q < 1" by (simp_all add: q_def) linarith
  have sub: "js_sub (Fin t) (js_floor (Fin t)) = Fin q"
    using fl_frac [OF assms] by (simp add: js_sub_def q_def)
  have "0 \<le> q * 60" "q * 60 \<le> 60" using q by simp_all
  from fl_le_double [OF this is_double_small(4)]
  obtain v where v: "fl (q * 60) = Fin v" "0 \<le> v" "v \<le> 60" by blast
  have 1: "js_mul (Fin (t - of_int \<lfloor>t\<rfloor>)) (Fin 60) = Fin v"
    using v(1) by (simp add: q_def)
  have 2: "minutes_of (Fin t) = Fin (of_int (round v))"
    unfolding minutes_of_def Let_def sub using v(1) by (simp add: round_def)
  from 1 v(2,3) 2 show ?thesis by (rule that)
qed

text \<open>With a positive speed and non-negative distances the running sum of the estimate
  stays an infinity or a non-negative double.\<close>

lemma estimatedTimeToSender_step:
  assumes acc: "acc = PInf \<or> (\<exists>a. acc = Fin a \<and> is_double a \<and> 0 \<le> a)"
    and d: "0 \<le> d" and s: "0 < s"
  shows "js_add acc (js_div (js_div (Fin d) (Fin 1000)) (Fin s)) = PInf \<or>
         (\<exists>a. js_add acc (js_div (js_div (Fin d) (Fin 1000)) (Fin s)) = Fin a \<and>
              is_double a \<and> 0 \<le> a)"
proof -
  have add_inf: "js_add acc PInf = PInf" using acc by auto
  have add_fin: "js_add acc (Fin c) = PInf \<or>
                 (\<exists>a. js_add acc (Fin c) = Fin a \<and> is_double a \<and> 0 \<le> a)"
    if "0 \<le> c" for c
  proof -
    from acc consider "acc = PInf" | a where "acc = Fin a" "0 \<le> a" by blast
    then show ?thesis
    proof cases
      case 1
      then show ?thesis by simp
    next
      case 2
      have "0 \<le> a + c" using 2(2) that by simp
      from fl_nonneg_double [OF this] show ?thesis by (simp add: 2(1))
    qed
  qed
  have "0 \<le> d / 1000" using d by simp
  from fl_nonneg_double [OF this]
  consider "fl (d / 1000) = PInf" | b where "fl (d / 1000) = Fin b" "0 \<le> b" by blast
  then show ?thesis
  proof cases
    case 1
    then show ?thesis using s add_inf by (simp add: signed_inf_def)
  next
    case 2
    have "0 \<le> b / s" using 2(2) s by simp
    from fl_nonneg_double [OF this]
    consider "fl (b / s) = PInf" | c where "fl (b / s) = Fin c" "0 \<le> c" by blast
    then show ?thesis
    proof cases
      case 1
      then show ?thesis using s add_inf by (simp add: 2(1))
    next
      case c: 2
      from add_fin [OF c(2)] show ?thesis using s by (simp add: 2(1) c(1))
    qed
  qed
qed

lemma estimatedTimeToSender_nonneg:
  assumes "acc = PInf \<or> (\<exists>a. acc = Fin a \<and> is_double a \<and> 0 \<le> a)"
    and "\<forall>elem\<in>set rs. 0 \<le> rl_distance elem" and "0 < s"
  shows "estimatedTimeToSender (Fin s) acc rs = PInf \<or>
         (\<exists>t. estimatedTimeToSender (Fin s) acc rs = Fin t \<and> is_double t \<and> 0 \<le> t)"
  using assms
proof (induction rs arbitrary: acc)
  case Nil
  then show ?case by simp
next
  case (Cons elem rs)
  have "0 \<le> rl_distance elem" using Cons.prems(2) by simp
  from estimatedTimeToSender_step [OF Cons.prems(1) this Cons.prems(3)]
  have "js_add acc (js_div (js_div (Fin (rl_distance elem)) (Fin 1000)) (Fin s)) = PInf \<or>
        (\<exists>a. js_add acc (js_div (js_div (Fin (rl_distance elem)) (Fin 1000)) (Fin s)) = Fin a \<and>
             is_double a \<and> 0 \<le> a)" .
  from Cons.IH [OF this] Cons.prems(2,3) show ?case by simp
qed

lemma findRiders_found:
  assumes "delivery_findAll dao cust = Some dlv" and "dlv \<noteq> []"
    and "rs = riderLocation_aggregate dao (d_senderLocation (last dlv))"
    and "pickRider (rider_findById dao) rs = Some r"
  shows "findRiders C dao cust =
           Inr \<lparr>arrivalTime =
                  arrivalTime_of (minutes_of (estimatedTimeToSender
                    (speedInKmPerHour C (vehicle_findByAny dao (r_id r))) (Fin 0) rs)),
                result_rider = r\<rparr>"
proof -
  have "rs \<noteq> []" using assms(4) by (rule pickRider_nonempty)
  with assms show ?thesis by (simp add: findRiders_def Let_def)
qed

text \<open>
  Claim C10. Let the speed of the chosen rider's vehicle be positive, the distances of the
  returned riders non-negative and the aggregate estimate a finite number \<open>t\<close> of hours.
  Then the arrival time that discovery reports is \<open>round ((t - \<lfloor>t\<rfloor>) * 60)\<close>, raised to 2
  when it is below: the whole hours \<open>\<lfloor>t\<rfloor>\<close> are subtracted without rounding error, the
  product \<open>v\<close> of the remainder with 60 is the source's (a double between 0 and 60), and
  the reported minutes are those of the remainder \<open>t - \<lfloor>t\<rfloor>\<close> alone.
\<close>

theorem findRiders_arrival_drops_whole_hours:
  assumes "delivery_findAll dao cust = Some dlv" and "dlv \<noteq> []"
    and "rs = riderLocation_aggregate dao (d_senderLocation (last dlv))"
    and "pickRider (rider_findById dao) rs = Some r"
    and "speedInKmPerHour C (vehicle_findByAny dao (r_id r)) = Fin s" and "0 < s"
    and "\<forall>elem\<in>set rs. 0 \<le> rl_distance elem"
    and "estimatedTimeToSender (Fin s) (Fin 0) rs = Fin t"
  shows "\<exists>v. js_mul (Fin (t - of_int \<lfloor>t\<rfloor>)) (Fin 60) = Fin v \<and> 0 \<le> v \<and> v \<le> 60 \<and>
           findRiders C dao cust =
             Inr \<lparr>arrivalTime = Fin (of_int (max 2 (round v))), result_rider = r\<rparr> \<and>
           minutes_of (Fin t) = minutes_of (Fin (t - of_int \<lfloor>t\<rfloor>))"
proof -
  have "Fin 0 = PInf \<or> (\<exists>a. Fin 0 = Fin a \<and> is_double a \<and> 0 \<le> a)"
    using is_double_small(1) by simp
  from estimatedTimeToSender_nonneg [OF this assms(7,6)] assms(8)
  have dt: "is_double t" and t0: "0 \<le> t" by simp_all
  define q where "q = t - of_int \<lfloor>t\<rfloor>"
  from dt t0 obtain v where v: "js_mul (Fin q) (Fin 60) = Fin v" "0 \<le> v" "v \<le> 60"
    and m: "minutes_of (Fin t) = Fin (of_int (round v))"
    unfolding q_def by (rule minutes_of_double)
  have q: "0 \<le> q" "q < 1" by (simp_all add: q_def) linarith
  have fq: "\<lfloor>q\<rfloor> = 0" using q by (simp add: floor_eq_iff)
  have "is_double q" using fl_frac [OF dt t0] by (simp add: is_double_def q_def)
  from this q(1) obtain v' where v': "js_mul (Fin (q - of_int \<lfloor>q\<rfloor>)) (Fin 60) = Fin v'"
    and m': "minutes_of (Fin q) = Fin (of_int (round v'))"
    by (rule minutes_of_double)
  from v' v(1) have "v' = v" by (simp add: fq)
  with m m' have same: "minutes_of (Fin t) = minutes_of (Fin q)" by simp
  have r0: "0 \<le> round v" using v(2) by (simp add: round_def)
  have "round v \<le> round (60::rat)" using v(3) by (rule round_mono)
  then have r60: "round v \<le> 60" by simp
  have "\<bar>round v\<bar> < 2 ^ 53" using r0 r60 by simp
  then have arr: "arrivalTime_of (Fin (of_int (round v))) = Fin (of_int (max 2 (round v)))"
    by (rule arrivalTime_of_int)
  have res: "findRiders C dao cust =
               Inr \<lparr>arrivalTime = Fin (of_int (max 2 (round v))), result_rider = r\<rparr>"
    using findRiders_found [OF assms(1-4), of C] by (simp only: assms(5,8) m arr)
  show ?thesis
  proof (intro exI [of _ v] conjI)
    show "js_mul (Fin (t - of_int \<lfloor>t\<rfloor>)) (Fin 60) = Fin v" using v(1) by (simp only: q_def)
    show "0 \<le> v" by (rule v(2))
    show "v \<le> 60" by (rule v(3))
    show "findRiders C dao cust =
            Inr \<lparr>arrivalTime = Fin (of_int (max 2 (round v))), result_rider = r\<rparr>" by (rule res)
    show "minutes_of (Fin t) = minutes_of (Fin (t - of_int \<lfloor>t\<rfloor>))"
      using same by (simp only: q_def)
  qed
qed

text \<open>One hour and a half is reported as 30 minutes.\<close>

theorem findRiders_arrival_drops_whole_hours_witness:
  "speedInKmPerHour speeds0 (vehicle_findByAny dao_far (r_id riderB)) = Fin 30 \<and>
   estimatedTimeToSender (Fin 30) (Fin 0) [\<lparr>rl_rider = ''rB'', rl_distance = 45000\<rparr>] =
     Fin (3 / 2) \<and>
   js_mul (Fin (3 / 2 - of_int \<lfloor>3 / 2 :: rat\<rfloor>)) (Fin 60) = Fin 30 \<and>
   findRiders speeds0 dao_far ''c1'' = Inr \<lparr>arrivalTime = Fin 30, result_rider = riderB\<rparr>"
proof -
  have 1: "delivery_findAll dao_far ''c1'' = Some [delivery0]" by code_simp
  have 2: "[delivery0] \<noteq> []" by simp
  have 3: "[\<lparr>rl_rider = ''rB'', rl_distance = 45000\<rparr>] =
             riderLocation_aggregate dao_far (d_senderLocation (last [delivery0]))"
    by code_simp
  have 4: "pickRider (rider_findById dao_far) [\<lparr>rl_rider = ''rB'', rl_distance = 45000\<rparr>] =
             Some riderB"
    by code_simp
  have 5: "speedInKmPerHour speeds0 (vehicle_findByAny dao_far (r_id riderB)) = Fin 30"
    by code_simp
  have 6: "(0::rat) < 30" by simp
  have 7: "\<forall>elem\<in>set [\<lparr>rl_rider = ''rB'', rl_distance = 45000\<rparr>]. 0 \<le> rl_distance elem"
    by simp
  have 8: "estimatedTimeToSender (Fin 30) (Fin 0) [\<lparr>rl_rider = ''rB'', rl_distance = 45000\<rparr>] =
             Fin (3 / 2)"
    by code_simp
  have e: "js_mul (Fin (3 / 2 - of_int \<lfloor>3 / 2 :: rat\<rfloor>)) (Fin 60) = Fin 30" by code_simp
  have r: "max 2 (round (30::rat)) = 30" by simp
  from findRiders_arrival_drops_whole_hours [OF 1 2 3 4 5 6 7 8]
  obtain v where v: "js_mul (Fin (3 / 2 - of_int \<lfloor>3 / 2 :: rat\<rfloor>)) (Fin 60) = Fin v"
    and f: "findRiders speeds0 dao_far ''c1'' =
              Inr \<lparr>arrivalTime = Fin (of_int (max 2 (round v))), result_rider = riderB\<rparr>"
    by auto
  from v e have "v = 30" by simp
  with f r 5 8 e show ?thesis by simp
qed

text \<open>Two estimates whose minutes fall just below a half: 32250 m at 30 km/h is
  1.075 hours, whose remainder times 60 is the double just below 4.5, reported as 4
  minutes; 1000 m, 1000 m and 4250 m sum to the double just below 0.2083..., times 60
  just below 12.5, reported as 12 minutes.\<close>

lemma findRiders_rounding_examples:
  "findRiders speeds0
     (dao0\<lparr>riderLocation_aggregate := (\<lambda>p. [\<lparr>rl_rider = ''rB'', rl_distance = 32250\<rparr>])\<rparr>)
     ''c1'' = Inr \<lparr>arrivalTime = Fin 4, result_rider = riderB\<rparr>"
  "findRiders speeds0
     (dao0\<lparr>riderLocation_aggregate :=
             (\<lambda>p. [\<lparr>rl_rider = ''rB'', rl_distance = 1000\<rparr>,
                    \<lparr>rl_rider = ''rC'', rl_distance = 1000\<rparr>,
                    \<lparr>rl_rider = ''rA'', rl_distance = 4250\<rparr>])\<rparr>)
     ''c1'' = Inr \<lparr>arrivalTime = Fin 12, result_rider = riderB\<rparr>"
  by code_simp+

end
